(* ===== verification/Prelude.thy ===== *)
theory Prelude
  imports Complex_Main "HOL-Library.Word" "HOL-Library.Sublist"
begin

text \<open>
  Shared vocabulary of the steganography development.
  Python strings are sequences of Unicode code points, so a Python \<open>str\<close> is modelled as a
  list of natural numbers (\<open>pystr\<close>); \<open>of_string\<close> turns an ASCII literal of Isabelle
  into that form.  A bit string of the source (a Python string of \<open>'0'\<close>/\<open>'1'\<close>, or a list
  of such strings) is a list of booleans, most significant bit first.  Samples of a WAV
  file are 16-bit machine words (\<open>int16_word\<close>) or their signed reading as \<open>int\<close>;
  the float32 arrays of numpy are modelled as exact \<open>real\<close> lists.
  The theory also holds Python's slice \<open>xs[a:b]\<close> and numpy's in-place slice addition
  \<open>xs[a:a+len(ys)] += ys\<close>, with the list lemmas the components share.
\<close>

type_synonym codepoint = nat
type_synonym pystr = "codepoint list"
type_synonym bitstr = "bool list"
type_synonym int16_word = "16 word"

named_theorems model_defs "definitions of the model unfolded by the component proofs"
named_theorems list_model_simps "list lemmas on slices shared by the components"

definition of_string :: "string \<Rightarrow> pystr" where
  "of_string s = map of_char s"

text \<open>Python's \<open>xs[a:b]\<close> for non-negative bounds: clamped at the end of the list, empty
  when \<open>b \<le> a\<close>.\<close>

definition slice :: "'a list \<Rightarrow> nat \<Rightarrow> nat \<Rightarrow> 'a list" where
  "slice xs a b = take (b - a) (drop a xs)"

text \<open>numpy's \<open>out[a:a+len(ys)] += ys\<close> on a float array: pointwise addition inside the
  window, the rest of the array unchanged.  numpy raises on a window that leaves the array;
  every caller checks that it does not.\<close>

definition add_slice :: "real list \<Rightarrow> nat \<Rightarrow> real list \<Rightarrow> real list" where
  "add_slice xs a ys =
     take a xs @ map2 (+) (take (length ys) (drop a xs)) ys @ drop (a + length ys) xs"

declare of_string_def [model_defs] slice_def [model_defs]

lemma length_slice [simp, list_model_simps]:
  "length (slice xs a b) = min (b - a) (length xs - a)"
  by (simp add: slice_def)

lemma nth_slice [simp, list_model_simps]:
  "k < length (slice xs a b) \<Longrightarrow> slice xs a b ! k = xs ! (a + k)"
  by (simp add: slice_def nth_drop [of a] less_diff_conv)

lemma slice_full_length [list_model_simps]:
  "b \<le> length xs \<Longrightarrow> a \<le> b \<Longrightarrow> length (slice xs a b) = b - a"
  by simp

lemma length_add_slice [simp, list_model_simps]:
  "a + length ys \<le> length xs \<Longrightarrow> length (add_slice xs a ys) = length xs"
  by (simp add: add_slice_def)

lemma nth_add_slice [list_model_simps]:
  assumes "a + length ys \<le> length xs" and "p < length xs"
  shows "add_slice xs a ys ! p =
           (if a \<le> p \<and> p < a + length ys then xs ! p + ys ! (p - a) else xs ! p)"
proof -
  define B where "B = map2 (+) (take (length ys) (drop a xs)) ys"
  define C where "C = drop (a + length ys) xs"
  have lA: "length (take a xs) = a" using assms by simp
  have lB: "length B = length ys" using assms by (simp add: B_def)
  have eq: "add_slice xs a ys = take a xs @ B @ C"
    by (simp add: add_slice_def B_def C_def)
  consider (before) "p < a" | (inside) "a \<le> p" "p < a + length ys" | (after) "a + length ys \<le> p"
    by linarith
  then show ?thesis
  proof cases
    case before
    then have "add_slice xs a ys ! p = take a xs ! p"
      using lA eq by (metis nth_append_left)
    then show ?thesis using before by simp
  next
    case inside
    then have "add_slice xs a ys ! p = (B @ C) ! (p - a)"
      using lA eq by (metis not_le nth_append_right)
    also have "\<dots> = B ! (p - a)"
      using inside lB by (simp add: nth_append_left)
    also have "\<dots> = xs ! p + ys ! (p - a)"
      using inside assms by (simp add: B_def)
    finally show ?thesis using inside by simp
  next
    case after
    then have "add_slice xs a ys ! p = (B @ C) ! (p - a)"
      using lA eq by (metis add_leD1 not_le nth_append_right)
    also have "\<dots> = C ! (p - a - length ys)"
      using after lB by (simp add: nth_append_right)
    also have "\<dots> = xs ! p"
      using after assms by (simp add: C_def)
    finally show ?thesis using after by simp
  qed
qed

text \<open>Suffix and sublist facts used by the terminator reasoning.\<close>

lemma suffix_take_sublist:
  assumes "suffix xs (take k ys)"
  shows "sublist xs ys"
proof -
  from assms obtain zs where "take k ys = zs @ xs" by (auto simp: suffix_def)
  then have "ys = zs @ xs @ drop k ys" by (metis append.assoc append_take_drop_id)
  then show ?thesis by (auto simp: sublist_def)
qed

lemma list_all_upt_iff [list_model_simps]:
  "list_all P [0..<n] \<longleftrightarrow> (\<forall>k<n. P k)"
  by (auto simp: list_all_iff)

text \<open>The first index of a range satisfying a test, unfolded one step.\<close>

lemma find_map_Suc: "find P (map Suc xs) = map_option Suc (find (\<lambda>k. P (Suc k)) xs)"
  by (induction xs) simp_all

lemma find_upt_Suc:
  "find P [0..<Suc n] = (if P 0 then Some 0 else map_option Suc (find (\<lambda>k. P (Suc k)) [0..<n]))"
  by (simp add: upt_conv_Cons map_Suc_upt [symmetric] find_map_Suc del: upt_Suc)

end
