(* ===== verification/BitCodec.thy ===== *)
theory BitCodec
  imports Prelude
begin

text \<open>
  The framing of a text message as a bit string, shared by both embedding schemes of
  \<open>src/app.py\<close>.  Encoding (\<open>message += "###"\<close> followed by
  \<open>"".join(format(ord(c), "08b") for c in message)\<close>, lines 36--37 and 83--84) is
  \<open>encode_bits\<close>.  Decoding is the loop over groups of eight bits that both decoders
  contain (lines 56--73 of \<open>decode_lsb\<close> and 151--172 of \<open>decode_echo_simple\<close>); it is
  the single function \<open>decode_chars\<close>, parametrised by the test on the byte value that
  stops the loop (\<open>char_val == 0\<close> for LSB, \<open>char_val == 0 or char_val > 127\<close> for echo).
  The lemmas show the length of the framed bit string, that each group of eight bits
  reads back as the character it encodes, and that decoding the framed message returns
  it when no earlier prefix ends with the terminator.
\<close>

definition terminator :: pystr where
  "terminator = of_string ''###''"

text \<open>\<open>format(n, "b")\<close>: the binary digits of \<open>n\<close> without leading zeros, \<open>"0"\<close> for zero.\<close>

fun bin_digits :: "nat \<Rightarrow> bitstr" where
  "bin_digits n = (if n < 2 then [n = 1] else bin_digits (n div 2) @ [odd n])"

declare bin_digits.simps [simp del]

text \<open>\<open>format(n, "08b")\<close>: padded on the left with zeros to at least eight digits; a code
  point of 256 or more gives more than eight.\<close>

definition format_08b :: "codepoint \<Rightarrow> bitstr" where
  "format_08b n = replicate (8 - length (bin_digits n)) False @ bin_digits n"

definition encode_bits :: "pystr \<Rightarrow> bitstr" where
  "encode_bits message = concat (map format_08b (message @ terminator))"

text \<open>\<open>int("".join(byte), 2)\<close>: the value of a bit string read most significant first.\<close>

definition bin_val :: "bitstr \<Rightarrow> nat" where
  "bin_val bs = foldl (\<lambda>acc b. 2 * acc + (if b then 1 else 0)) 0 bs"

text \<open>
  The decoding loop.  \<open>chars\<close> is the list of characters accepted so far, \<open>bits\<close> the
  unread rest of the bit string.  A partial group (\<open>len(byte) < 8\<close>) and a byte the
  scheme rejects both \<open>break\<close> out of the loop, which ends in the not-found result
  (\<open>None\<close>); after each accepted character the loop returns the characters without the
  terminator as soon as they end with it.
\<close>

function decode_chars :: "(nat \<Rightarrow> bool) \<Rightarrow> pystr \<Rightarrow> bitstr \<Rightarrow> pystr option" where
  "decode_chars stop chars bits =
     (if length bits < 8 then None
      else let char_val = bin_val (take 8 bits) in
        if stop char_val then None
        else let chars' = chars @ [char_val] in
          if suffix terminator chars' then Some (take (length chars' - 3) chars')
          else decode_chars stop chars' (drop 8 bits))"
  by pat_completeness auto
termination
  by (relation "measure (\<lambda>(stop, chars, bits). length bits)") auto

declare decode_chars.simps [simp del]

definition no_hidden_message :: pystr where
  "no_hidden_message = of_string ''No hidden message found''"

definition lsb_stop :: "nat \<Rightarrow> bool" where
  "lsb_stop char_val = (char_val = 0)"

definition echo_stop :: "nat \<Rightarrow> bool" where
  "echo_stop char_val = (char_val = 0 \<or> char_val > 127)"

text \<open>
  A declarative reference for the decoding loop: \<open>bytes8\<close> reads the bit string as the
  values of its complete groups of eight bits, and \<open>decode_ref\<close> looks for the first
  byte that is either rejected or completes a \<open>"###"\<close> suffix of the characters read so
  far; decoding succeeds exactly when such a byte exists and it is not rejected.
\<close>

fun bytes8 :: "bitstr \<Rightarrow> nat list" where
  "bytes8 bits = (if length bits < 8 then [] else bin_val (take 8 bits) # bytes8 (drop 8 bits))"

declare bytes8.simps [simp del]

definition decode_ref :: "(nat \<Rightarrow> bool) \<Rightarrow> pystr \<Rightarrow> nat list \<Rightarrow> pystr option" where
  "decode_ref stop chars bs =
     (case find (\<lambda>k. stop (bs ! k) \<or> suffix terminator (chars @ take (Suc k) bs)) [0..<length bs] of
        None \<Rightarrow> None
      | Some k \<Rightarrow> if stop (bs ! k) then None
                  else Some (take (length chars + Suc k - 3) (chars @ take (Suc k) bs)))"

declare terminator_def [model_defs] format_08b_def [model_defs] encode_bits_def [model_defs]
  no_hidden_message_def [model_defs]

subsection \<open>Binary digits\<close>

lemma terminator_eq: "terminator = [35, 35, 35]"
  by (simp add: terminator_def of_string_def)

lemma bin_val_foldl_acc:
  "foldl (\<lambda>acc b. 2 * acc + (if b then 1 else 0)) a ys
     = a * 2 ^ length ys + bin_val ys"
proof (induction ys arbitrary: a)
  case Nil
  then show ?case by (simp add: bin_val_def)
next
  case (Cons y ys)
  let ?v = "if y then 1 else 0 :: nat"
  have "foldl (\<lambda>acc b. 2 * acc + (if b then 1 else 0)) a (y # ys)
          = (2 * a + ?v) * 2 ^ length ys + bin_val ys"
    using Cons.IH [of "2 * a + ?v"] by simp
  moreover have "bin_val (y # ys) = ?v * 2 ^ length ys + bin_val ys"
    using Cons.IH [of ?v] by (simp add: bin_val_def)
  ultimately show ?case by (simp add: algebra_simps)
qed

lemma bin_val_append:
  "bin_val (xs @ ys) = bin_val xs * 2 ^ length ys + bin_val ys"
proof -
  have "bin_val (xs @ ys) = foldl (\<lambda>acc b. 2 * acc + (if b then 1 else 0)) (bin_val xs) ys"
    by (simp only: bin_val_def foldl_append)
  then show ?thesis by (simp only: bin_val_foldl_acc)
qed

lemma bin_val_replicate_False [simp]: "bin_val (replicate k False @ xs) = bin_val xs"
proof -
  have "bin_val (replicate k False) = 0"
    by (induction k) (simp_all add: bin_val_def)
  then show ?thesis by (simp add: bin_val_append)
qed

lemma bin_val_bin_digits [simp]: "bin_val (bin_digits n) = n"
proof (induction n rule: bin_digits.induct)
  case (1 n)
  show ?case
  proof (cases "n < 2")
    case True
    then show ?thesis by (auto simp: bin_digits.simps bin_val_def)
  next
    case False
    then have "bin_val (bin_digits n) = bin_val (bin_digits (n div 2)) * 2 + (if odd n then 1 else 0)"
      by (simp add: bin_digits.simps [of n] bin_val_append bin_val_def)
    moreover have "(if odd n then 1 else 0) = n mod 2" by presburger
    moreover have "bin_val (bin_digits (n div 2)) = n div 2" using "1.IH" False .
    ultimately show ?thesis by (simp only:) (rule div_mult_mod_eq)
  qed
qed

lemma length_bin_digits_le:
  "n < 2 ^ k \<Longrightarrow> 0 < k \<Longrightarrow> length (bin_digits n) \<le> k"
proof (induction n arbitrary: k rule: bin_digits.induct)
  case (1 n)
  show ?case
  proof (cases "n < 2")
    case True
    with "1.prems" show ?thesis by (simp add: bin_digits.simps)
  next
    case False
    have "1 < k"
    proof (rule ccontr)
      assume "\<not> 1 < k"
      with "1.prems" have "k = 1" by simp
      with "1.prems" False show False by simp
    qed
    then obtain k' where k: "k = Suc k'" and "0 < k'"
      by (cases k) auto
    with "1.prems" have "n div 2 < 2 ^ k'" by simp
    with "1.IH" False \<open>0 < k'\<close> have "length (bin_digits (n div 2)) \<le> k'" by simp
    with False k show ?thesis by (simp add: bin_digits.simps [of n])
  qed
qed

lemma length_format_08b [simp]: "n < 256 \<Longrightarrow> length (format_08b n) = 8"
  using length_bin_digits_le [of n 8] by (simp add: format_08b_def)

lemma bin_val_format_08b [simp]: "bin_val (format_08b n) = n"
  by (simp add: format_08b_def)

lemma length_encode_chars:
  "\<forall>c\<in>set cs. c < 256 \<Longrightarrow> length (concat (map format_08b cs)) = 8 * length cs"
  by (induction cs) simp_all


lemma bin_val_less_pow: "bin_val bs < 2 ^ length bs"
proof (induction bs rule: rev_induct)
  case Nil
  then show ?case by (simp add: bin_val_def)
next
  case (snoc b bs)
  then have "bin_val bs * 2 + 1 < 2 ^ length bs * 2" by linarith
  then show ?case by (simp add: bin_val_append bin_val_def)
qed

lemma bin_val_all_False: "True \<notin> set bs \<Longrightarrow> bin_val bs = 0"
  by (induction bs rule: rev_induct) (auto simp: bin_val_append bin_val_def)

subsection \<open>Decoding a framed message\<close>

lemma decode_chars_zero_byte:
  assumes "stop 0" and "8 \<le> length bits \<Longrightarrow> True \<notin> set (take 8 bits)"
  shows "decode_chars stop chars bits = None"
  using assms by (subst decode_chars.simps) (auto simp: bin_val_all_False Let_def)


lemma decode_chars_format:
  assumes "c < 256"
  shows "decode_chars stop chars (format_08b c @ rest) =
           (if stop c then None
            else if suffix terminator (chars @ [c]) then Some (take (length (chars @ [c]) - 3) (chars @ [c]))
            else decode_chars stop (chars @ [c]) rest)"
proof -
  have l: "length (format_08b c) = 8" using assms by simp
  then have t: "take 8 (format_08b c @ rest) = format_08b c"
    and d: "drop 8 (format_08b c @ rest) = rest"
    and n: "\<not> length (format_08b c @ rest) < 8"
    by simp_all
  show ?thesis
    by (simp only: decode_chars.simps [of stop chars "format_08b c @ rest"] n t d
        bin_val_format_08b Let_def if_False)
qed

lemma decode_chars_pass:
  assumes "\<forall>c\<in>set cs. c < 256 \<and> \<not> stop c"
    and "\<forall>k. 0 < k \<longrightarrow> k \<le> length cs \<longrightarrow> \<not> suffix terminator (chars @ take k cs)"
  shows "decode_chars stop chars (concat (map format_08b cs) @ rest) = decode_chars stop (chars @ cs) rest"
  using assms
proof (induction cs arbitrary: chars)
  case Nil
  then show ?case by simp
next
  case (Cons c cs)
  from Cons.prems(2) have "0 < (1::nat) \<longrightarrow> 1 \<le> length (c # cs) \<longrightarrow>
      \<not> suffix terminator (chars @ take 1 (c # cs))" by (rule spec)
  then have no: "\<not> suffix terminator (chars @ [c])" by simp
  have IH: "decode_chars stop (chars @ [c]) (concat (map format_08b cs) @ rest)
              = decode_chars stop ((chars @ [c]) @ cs) rest"
  proof (rule Cons.IH)
    show "\<forall>c\<in>set cs. c < 256 \<and> \<not> stop c" using Cons.prems(1) by simp
    show "\<forall>k. 0 < k \<longrightarrow> k \<le> length cs \<longrightarrow> \<not> suffix terminator ((chars @ [c]) @ take k cs)"
    proof (intro allI impI)
      fix k assume "0 < k" "k \<le> length cs"
      then have "\<not> suffix terminator (chars @ take (Suc k) (c # cs))"
        using Cons.prems(2) [rule_format, of "Suc k"] by simp
      then show "\<not> suffix terminator ((chars @ [c]) @ take k cs)" by simp
    qed
  qed
  from Cons.prems(1) have "c < 256" "\<not> stop c" by simp_all
  with no IH show ?case by (simp add: decode_chars_format del: suffix_snoc)
qed

lemma no_sublist_prefixes:
  assumes "\<not> sublist terminator ys"
  shows "\<forall>k. 0 < k \<longrightarrow> k \<le> length ys \<longrightarrow> \<not> suffix terminator ([] @ take k ys)"
  using assms suffix_take_sublist by fastforce

text \<open>Decoding a framed prefix: the characters up to the first terminator come back.\<close>

lemma decode_chars_framed:
  assumes "\<forall>c\<in>set p. c < 256 \<and> \<not> stop c" and "\<not> stop 35"
    and "\<not> sublist terminator (p @ butlast terminator)"
  shows "decode_chars stop [] (concat (map format_08b (p @ terminator)) @ rest) = Some p"
proof -
  have split: "p @ terminator = (p @ [35, 35]) @ [35]" and bl: "butlast terminator = [35, 35]"
    by (simp_all add: terminator_eq)
  have "decode_chars stop [] (concat (map format_08b (p @ [35, 35])) @ format_08b 35 @ rest)
          = decode_chars stop ([] @ p @ [35, 35]) (format_08b 35 @ rest)"
    using assms(1,2) assms(3) [unfolded bl]
    by (intro decode_chars_pass no_sublist_prefixes) auto
  also have "\<dots> = Some p"
  proof -
    have "suffix terminator (([] @ p @ [35, 35]) @ [35])" by (simp add: terminator_eq suffix_def)
    then show ?thesis using assms(2) by (simp add: decode_chars_format del: suffix_snoc)
  qed
  finally show ?thesis by (simp add: split)
qed

text \<open>A rejected byte after a terminator-free prefix ends decoding with nothing found.\<close>

lemma decode_chars_stop_char:
  assumes "\<forall>c\<in>set p. c < 256 \<and> \<not> stop c" and "\<not> sublist terminator p"
    and "stop c" and "c < 256"
  shows "decode_chars stop [] (concat (map format_08b p) @ format_08b c @ rest) = None"
proof -
  have "decode_chars stop [] (concat (map format_08b p) @ format_08b c @ rest)
          = decode_chars stop ([] @ p) (format_08b c @ rest)"
    using assms(1,2) by (intro decode_chars_pass no_sublist_prefixes)
  then show ?thesis using assms(3,4) by (simp add: decode_chars_format del: suffix_snoc)
qed

subsection \<open>Wide characters and the reference decoder\<close>

lemma length_format_08b_ge: "8 \<le> length (format_08b n)"
  by (simp add: format_08b_def)

lemma format_08b_wide_len:
  assumes c: "256 \<le> c"
  shows "8 < length (format_08b c)"
proof -
  have "8 < length (bin_digits c)"
  proof (rule ccontr)
    assume "\<not> 8 < length (bin_digits c)"
    then have "bin_val (bin_digits c) < 2 ^ 8"
      using bin_val_less_pow [of "bin_digits c"]
      by (meson le_less_trans not_less power_increasing_iff one_less_numeral_iff semiring_norm(76) le_less)
    with c show False by simp
  qed
  then show ?thesis by (simp add: format_08b_def)
qed

lemma length_concat_format_ge: "8 * length cs \<le> length (concat (map format_08b cs))"
proof (induction cs)
  case (Cons x xs)
  then show ?case using length_format_08b_ge [of x] by simp
qed simp

lemma length_concat_format_wide:
  "c \<in> set cs \<Longrightarrow> 256 \<le> c \<Longrightarrow> 8 * length cs < length (concat (map format_08b cs))"
proof (induction cs)
  case (Cons x xs)
  show ?case
  proof (cases "x = c")
    case True
    then show ?thesis
      using format_08b_wide_len [OF Cons.prems(2)] length_concat_format_ge [of xs] by simp
  next
    case False
    then show ?thesis using Cons length_format_08b_ge [of x] by simp
  qed
qed simp

lemma bin_val_take8_less: "bin_val (take 8 bs) < 256"
proof -
  have "bin_val (take 8 bs) < 2 ^ length (take 8 bs)" by (rule bin_val_less_pow)
  also have "\<dots> \<le> 2 ^ 8" by (rule power_increasing) simp_all
  finally show ?thesis by simp
qed

lemma decode_chars_bytes:
  "decode_chars stop chars bits = Some r \<Longrightarrow> \<forall>c\<in>set chars. c < 256 \<Longrightarrow> \<forall>c\<in>set r. c < 256"
proof (induction stop chars bits rule: decode_chars.induct)
  case (1 stop chars bits)
  have acc: "\<forall>c\<in>set (chars @ [bin_val (take 8 bits)]). c < 256"
    using "1.prems"(2) bin_val_take8_less [of bits] by simp
  show ?case
    using "1.prems"(1) "1.IH" [OF _ refl _ refl _ _ acc] acc
    by (auto simp: decode_chars.simps [of stop chars bits] Let_def split: if_splits
             dest: in_set_takeD)
qed

text \<open>The loop and its reference agree step by step, whatever the accumulated characters.\<close>

lemma decode_ref_Nil [simp]: "decode_ref stop chars [] = None"
  by (simp add: decode_ref_def)

lemma decode_ref_Cons:
  "decode_ref stop chars (b # bs) =
     (if stop b then None
      else if suffix terminator (chars @ [b]) then Some (take (length (chars @ [b]) - 3) (chars @ [b]))
      else decode_ref stop (chars @ [b]) bs)"
proof -
  define Q where "Q = (\<lambda>k. stop (bs ! k) \<or> suffix terminator ((chars @ [b]) @ take (Suc k) bs))"
  have P: "(\<lambda>k. stop ((b # bs) ! k) \<or> suffix terminator (chars @ take (Suc k) (b # bs))) =
           (\<lambda>k. if k = 0 then stop b \<or> suffix terminator (chars @ [b]) else Q (k - 1))"
    by (rule ext) (simp add: Q_def split: nat.split)
  have f: "find (\<lambda>k. stop ((b # bs) ! k) \<or> suffix terminator (chars @ take (Suc k) (b # bs)))
             [0..<length (b # bs)] =
           (if stop b \<or> suffix terminator (chars @ [b]) then Some 0
            else map_option Suc (find Q [0..<length bs]))"
    unfolding P by (simp only: length_Cons find_upt_Suc) (simp del: suffix_snoc)
  have r: "decode_ref stop (chars @ [b]) bs =
           (case find Q [0..<length bs] of None \<Rightarrow> None
            | Some k \<Rightarrow> if stop (bs ! k) then None
                        else Some (take (length (chars @ [b]) + Suc k - 3) ((chars @ [b]) @ take (Suc k) bs)))"
    by (simp only: decode_ref_def Q_def)
  show ?thesis
    unfolding decode_ref_def [of stop chars "b # bs"] f r
    by (cases "find Q [0..<length bs]") (auto simp del: suffix_snoc)
qed

lemma bytes8_Cons:
  "\<not> length bits < 8 \<Longrightarrow> bytes8 bits = bin_val (take 8 bits) # bytes8 (drop 8 bits)"
  by (simp add: bytes8.simps [of bits])

lemma decode_chars_ref_acc: "decode_chars stop chars bits = decode_ref stop chars (bytes8 bits)"
proof (induction stop chars bits rule: decode_chars.induct)
  case (1 stop chars bits)
  show ?case
  proof (cases "length bits < 8")
    case True
    then show ?thesis by (simp add: decode_chars.simps [of stop chars bits] bytes8.simps [of bits])
  next
    case False
    then show ?thesis
      using "1.IH" [OF False refl _ refl]
      by (simp add: decode_chars.simps [of stop chars bits] bytes8_Cons decode_ref_Cons Let_def del: suffix_snoc)
  qed
qed

subsection \<open>Properties of the framing\<close>

text \<open>C5: decoding the framed bit string of a message returns the message, whatever bits
  follow it, when every character is a byte the decoder accepts, the terminator
  character is accepted, and no prefix shorter than the whole frame already ends with
  \<open>"###"\<close> (the message followed by \<open>"##"\<close> does not contain \<open>"###"\<close>).\<close>

theorem decode_encode_bits:
  assumes "\<forall>c\<in>set m. c < 256 \<and> \<not> stop c" and "\<not> stop 35"
    and "\<not> sublist terminator (m @ butlast terminator)"
  shows "decode_chars stop [] (encode_bits m @ rest) = Some m"
  using decode_chars_framed [OF assms] by (simp add: encode_bits_def)

theorem decode_encode_bits_witness:
  "list_all (\<lambda>c. c < 256 \<and> \<not> lsb_stop c) (of_string ''HI'') \<and> \<not> lsb_stop 35 \<and>
   \<not> sublist terminator (of_string ''HI'' @ butlast terminator) \<and>
   decode_chars lsb_stop [] (encode_bits (of_string ''HI'') @ [True]) = Some (of_string ''HI'')"
proof -
  have h1: "\<forall>c\<in>set (of_string ''HI''). c < 256 \<and> \<not> lsb_stop c"
    by (simp add: of_string_def lsb_stop_def)
  have h2: "\<not> lsb_stop 35" by (simp add: lsb_stop_def)
  have h3: "\<not> sublist terminator (of_string ''HI'' @ butlast terminator)" by code_simp
  show ?thesis using h1 h2 h3 decode_encode_bits [OF h1 h2 h3, of "[True]"] by (simp add: list_all_iff)
qed

text \<open>C6: a message of byte-sized characters is framed into exactly eight bits per
  character, terminator included: \<open>8 * (len(message) + 3)\<close> bits.\<close>

theorem length_encode_bits:
  "\<forall>c\<in>set m. c < 256 \<Longrightarrow> length (encode_bits m) = 8 * (length m + 3)"
  by (simp add: encode_bits_def length_encode_chars terminator_eq)

theorem length_encode_bits_witness:
  "list_all (\<lambda>c. c < 256) (of_string ''HI'') \<and> length (encode_bits (of_string ''HI'')) = 40"
proof -
  have h: "\<forall>c\<in>set (of_string ''HI''). c < 256" by (simp add: of_string_def)
  show ?thesis using h length_encode_bits [OF h] by (simp add: of_string_def list_all_iff)
qed

text \<open>C12: \<open>format(ord(c), "08b")\<close> gives more than eight bits for a character whose code
  point is 256 or more, and \<open>encode_bits\<close> does not check it: a message holding such a
  character is framed into more than eight bits per character, and decoding its frame
  never gives the message back, since every decoded character is read from eight bits
  (the spec restricts messages to single-byte characters; the code does not enforce it).\<close>

theorem encode_bits_wide:
  assumes "c \<in> set m" and "256 \<le> c"
  shows "8 * (length m + 3) < length (encode_bits m) \<and>
         decode_chars stop [] (encode_bits m @ rest) \<noteq> Some m"
proof
  show "8 * (length m + 3) < length (encode_bits m)"
    using length_concat_format_wide [of c "m @ terminator"] assms
    by (simp add: encode_bits_def terminator_eq)
  show "decode_chars stop [] (encode_bits m @ rest) \<noteq> Some m"
    using decode_chars_bytes [of stop "[]" "encode_bits m @ rest" m] assms by (auto simp: not_le [symmetric])
qed

theorem encode_bits_wide_witness:
  "8364 \<in> set [8364::nat] \<and> 256 \<le> (8364::nat) \<and> 32 < length (encode_bits [8364]) \<and>
   decode_chars lsb_stop [] (encode_bits [8364] @ []) \<noteq> Some [8364]"
  using encode_bits_wide [of 8364 "[8364]" lsb_stop "[]"] by simp

text \<open>C33: the decoding loop shared by both decoders computes its declarative reference:
  the characters read from the complete bytes of the bit string up to the first
  \<open>"###"\<close>, terminator removed, or not-found when a rejected byte or the end of the
  data comes first.\<close>

theorem decode_chars_ref: "decode_chars stop [] bits = decode_ref stop [] (bytes8 bits)"
  by (rule decode_chars_ref_acc)

end
