(* ===== verification/SampleBuffer.thy ===== *)
theory SampleBuffer
  imports Prelude
begin

text \<open>
  The sample buffer that both engines read and write, and the two WAV helpers of
  \<open>src/app.py\<close> (\<open>read_wav_bytes\<close>, lines 8--14; \<open>write_wav_bytes\<close>, lines 17--28).
  A WAV byte stream is represented by what the \<open>wave\<close> module makes of it: its parameters
  (\<open>getparams()\<close>) and its frames decoded as signed 16-bit samples
  (\<open>np.frombuffer(frames, dtype=np.int16)\<close>); the byte-level container format itself is
  not modelled.  Reading converts the samples to float32, which is exact for 16-bit
  values and is modelled by \<open>real\<close>.  Writing clips to the 16-bit range
  (\<open>np.clip\<close>) and converts with \<open>np.int16\<close>, which truncates towards zero.
  The lemmas show that writing always yields 16-bit samples and that reading back what
  was written from 16-bit integers returns them unchanged.
\<close>

record wav_params =
  nchannels :: nat
  sampwidth :: nat
  framerate :: nat
  nframes :: nat
  comptype :: string
  compname :: string

record wav_audio =
  params :: wav_params
  frames :: "int list"

definition in_int16 :: "int \<Rightarrow> bool" where
  "in_int16 x \<longleftrightarrow> -32768 \<le> x \<and> x \<le> 32767"

text \<open>A well-formed buffer holds 16-bit samples, as \<open>np.frombuffer(..., np.int16)\<close>
  always produces.\<close>

definition wf_audio :: "wav_audio \<Rightarrow> bool" where
  "wf_audio a \<longleftrightarrow> list_all in_int16 (frames a)"

definition read_wav_bytes :: "wav_audio \<Rightarrow> real list \<times> wav_params" where
  "read_wav_bytes audio = (map real_of_int (frames audio), params audio)"

text \<open>\<open>np.clip(samples, -32768, 32767)\<close>.\<close>

definition clip16 :: "real \<Rightarrow> real" where
  "clip16 x = max (-32768) (min 32767 x)"

text \<open>\<open>np.int16(x)\<close> and \<open>x.astype(np.int16)\<close> on a float inside the 16-bit range:
  truncation towards zero.\<close>

definition to_int16 :: "real \<Rightarrow> int" where
  "to_int16 x = (if 0 \<le> x then \<lfloor>x\<rfloor> else \<lceil>x\<rceil>)"

definition write_wav_bytes :: "real list \<Rightarrow> wav_params \<Rightarrow> wav_audio" where
  "write_wav_bytes samples p = \<lparr>params = p, frames = map (\<lambda>x. to_int16 (clip16 x)) samples\<rparr>"

text \<open>A silent mono 16-bit buffer of \<open>n\<close> samples at 16 kHz, the test input of the
  concrete scenarios.\<close>

definition silent_mono :: "nat \<Rightarrow> wav_audio" where
  "silent_mono n = \<lparr>params = \<lparr>nchannels = 1, sampwidth = 2, framerate = 16000, nframes = n,
                      comptype = ''NONE'', compname = ''not compressed''\<rparr>,
                    frames = replicate n 0\<rparr>"

declare in_int16_def [model_defs] wf_audio_def [model_defs] read_wav_bytes_def [model_defs]
  write_wav_bytes_def [model_defs]

lemma to_int16_of_int [simp]: "to_int16 (real_of_int x) = x"
  by (simp add: to_int16_def)

lemma clip16_of_int [simp]: "in_int16 x \<Longrightarrow> clip16 (real_of_int x) = real_of_int x"
  by (simp add: clip16_def in_int16_def)

text \<open>Truncation towards zero keeps a float of the 16-bit range inside it: the
  \<open>astype(np.int16)\<close> conversions of the code never wrap on such values.\<close>

lemma in_int16_to_int16:
  assumes lo: "-32768 \<le> x" and hi: "x \<le> 32767"
  shows "in_int16 (to_int16 x)"
proof (cases "0 \<le> x")
  case True
  with hi have "\<lfloor>x\<rfloor> \<le> 32767" by linarith
  with True show ?thesis by (simp add: to_int16_def in_int16_def)
next
  case False
  with lo have "-32768 \<le> \<lceil>x\<rceil>" by linarith
  with False show ?thesis by (simp add: to_int16_def in_int16_def)
qed

lemma in_int16_to_int16_clip16 [simp]: "in_int16 (to_int16 (clip16 x))"
  by (rule in_int16_to_int16) (simp_all add: clip16_def)

lemma in_int16_sint [simp]: "in_int16 (sint (w :: int16_word))"
  using sint_ge [of w] sint_lt [of w] by (simp add: in_int16_def)

lemma word_of_int_sint_16 [simp]: "(word_of_int (sint (w :: int16_word)) :: int16_word) = w"
  by (metis scast_eq scast_id)

lemma sint_word_of_int_16: "in_int16 x \<Longrightarrow> sint (word_of_int x :: int16_word) = x"
  by (simp add: in_int16_def sint_sbintrunc' signed_take_bit_int_eq_self)

lemma wf_write_wav_bytes [simp]: "wf_audio (write_wav_bytes xs p)"
  by (simp add: wf_audio_def write_wav_bytes_def list_all_iff)

lemma write_wav_bytes_of_int:
  "list_all in_int16 xs \<Longrightarrow>
     write_wav_bytes (map real_of_int xs) p = \<lparr>params = p, frames = xs\<rparr>"
  by (induction xs) (simp_all add: write_wav_bytes_def)

lemma read_wav_bytes_samples [simp]:
  "fst (read_wav_bytes a) = map real_of_int (frames a)"
  "snd (read_wav_bytes a) = params a"
  by (simp_all add: read_wav_bytes_def)

text \<open>C11: whatever float samples it is given, \<open>write_wav_bytes\<close> produces 16-bit
  samples (clipping, then truncation towards zero), and it keeps their number and the
  format parameters.\<close>

theorem write_wav_bytes_in_range:
  "list_all in_int16 (frames (write_wav_bytes xs p)) \<and>
   length (frames (write_wav_bytes xs p)) = length xs \<and> params (write_wav_bytes xs p) = p"
  by (simp add: write_wav_bytes_def list_all_iff)

end
