(* ===== verification/LSB.thy ===== *)
theory LSB
  imports BitCodec SampleBuffer
begin

unbundle bit_operations_syntax

text \<open>
  Least-significant-bit embedding, \<open>encode_lsb\<close> and \<open>decode_lsb\<close> of
  \<open>src/app.py\<close> (lines 31--47 and 50--73).  The samples are read, converted with
  \<open>astype(np.int16)\<close> and viewed as unsigned 16-bit words (\<open>view(np.uint16)\<close>): one
  \<open>16 word\<close> per sample.  Encoding replaces bit 0 of sample \<open>i\<close> by bit \<open>i\<close> of the
  framed message (\<open>lsb_loop\<close>, the \<open>for i, b in enumerate(bits)\<close> loop, with the
  in-place update of the numpy view as a list update) and writes the words back as signed
  samples; decoding reads bit 0 of every sample and runs the shared decoding loop.
  The lemmas give the effect of the loop on each sample and the bit the decoder reads.
\<close>

definition lsb_set :: "int16_word \<Rightarrow> bool \<Rightarrow> int16_word" where
  "lsb_set w b = (w AND 0xFFFE) OR (if b then 1 else 0)"

fun lsb_loop :: "nat \<Rightarrow> bitstr \<Rightarrow> int16_word list \<Rightarrow> int16_word list" where
  "lsb_loop i [] flat = flat"
| "lsb_loop i (b # bits) flat = lsb_loop (Suc i) bits (flat[i := lsb_set (flat ! i) b])"

definition encode_lsb :: "wav_audio \<Rightarrow> pystr \<Rightarrow> wav_audio option" where
  "encode_lsb audio message =
     (let (samples, p) = read_wav_bytes audio;
          samples16 = map to_int16 samples;
          bits = encode_bits message;
          flat = map (\<lambda>s. word_of_int s :: int16_word) samples16
      in if length bits > length flat then None
         else Some (write_wav_bytes (map (\<lambda>w. real_of_int (sint w)) (lsb_loop 0 bits flat)) p))"

definition lsb_bits :: "int16_word list \<Rightarrow> bitstr" where
  "lsb_bits samples = map (\<lambda>s. s AND 1 = 1) samples"

definition decode_lsb :: "wav_audio \<Rightarrow> pystr" where
  "decode_lsb stego =
     (let (samples, _) = read_wav_bytes stego;
          samples16 = map (\<lambda>x. word_of_int (to_int16 x) :: int16_word) samples;
          bits = lsb_bits samples16
      in case decode_chars lsb_stop [] bits of Some m \<Rightarrow> m | None \<Rightarrow> no_hidden_message)"

declare lsb_set_def [model_defs] encode_lsb_def [model_defs] lsb_bits_def [model_defs]
  decode_lsb_def [model_defs]

subsection \<open>One sample\<close>

lemma mask_FFFE_eq: "(0xFFFE :: int16_word) = NOT 1"
  by simp

lemma mask_FFFE_bit: "bit (0xFFFE :: int16_word) n \<longleftrightarrow> 0 < n \<and> n < 16"
  by (auto simp add: mask_FFFE_eq bit_not_iff bit_1_iff)

lemma lsb_set_lsb [simp]: "(lsb_set w b AND 1 = 1) \<longleftrightarrow> b"
proof (cases b)
  case True
  have "(w AND 0xFFFE OR 1) AND 1 = 1"
    by (rule bit_eqI) (auto simp add: bit_and_iff bit_or_iff mask_FFFE_bit bit_1_iff)
  with True show ?thesis by (simp add: lsb_set_def)
next
  case False
  have "(w AND 0xFFFE) AND 1 = 0"
    unfolding mask_FFFE_eq by (simp add: and.assoc)
  with False show ?thesis by (simp add: lsb_set_def)
qed

lemma lsb_set_upper [simp]: "lsb_set w b AND 0xFFFE = w AND 0xFFFE"
  by (rule bit_eqI) (auto simp add: lsb_set_def bit_and_iff bit_or_iff mask_FFFE_bit bit_1_iff)

lemma word_and_1_odd_sint: "(w AND 1 = 1) \<longleftrightarrow> odd (sint (w :: int16_word))"
proof -
  have "odd (sint w) \<longleftrightarrow> bit (sint w) 0" by (simp add: bit_0)
  also have "\<dots> \<longleftrightarrow> bit w 0" by (simp add: bit_sint_iff)
  also have "\<dots> \<longleftrightarrow> (w AND 1 = 1)" by (simp add: bit_word_iff_drop_bit_and)
  finally show ?thesis by simp
qed

text \<open>As a signed sample, \<open>lsb_set\<close> rounds down to an even value and adds the bit: it
  moves the sample by at most one.\<close>

lemma sint_lsb_set: "sint (lsb_set w b) = 2 * (sint w div 2) + (if b then 1 else 0)"
proof (rule bit_eqI)
  fix n
  show "bit (sint (lsb_set w b)) n \<longleftrightarrow> bit (2 * (sint w div 2) + (if b then 1 else 0)) n"
  proof (cases n)
    case 0
    then show ?thesis
      using lsb_set_lsb [of w b] by (simp add: word_and_1_odd_sint bit_0)
  next
    case (Suc m)
    have "bit (lsb_set w b) k \<longleftrightarrow> bit w k" if "0 < k" for k
    proof -
      have "bit (lsb_set w b AND 0xFFFE) k \<longleftrightarrow> bit (w AND 0xFFFE) k"
        by (simp only: lsb_set_upper)
      then have eq: "(bit (lsb_set w b) k \<and> (0 < k \<and> k < 16)) \<longleftrightarrow> (bit w k \<and> (0 < k \<and> k < 16))"
        by (simp only: bit_and_iff mask_FFFE_bit)
      have len: "bit x k \<Longrightarrow> k < 16" for x :: int16_word
        using bit_imp_le_length [of x k] by simp
      from eq len [of w] len [of "lsb_set w b"] that show ?thesis by blast
    qed
    then have "bit (sint (lsb_set w b)) (Suc m) \<longleftrightarrow> bit (sint w) (Suc m)"
      by (simp only: bit_sint_iff) simp
    moreover have "bit (2 * (sint w div 2) + (if b then 1 else 0)) (Suc m) \<longleftrightarrow> bit (sint w) (Suc m)"
      by (simp add: bit_Suc)
    ultimately show ?thesis using Suc by simp
  qed
qed

lemma lsb_set_change: "\<bar>sint (lsb_set w b) - sint w\<bar> \<le> 1"
proof -
  have "0 \<le> sint w mod 2" "sint w mod 2 < 2" "sint w = 2 * (sint w div 2) + sint w mod 2"
    by simp_all
  then show ?thesis by (simp add: sint_lsb_set) linarith
qed

subsection \<open>The embedding loop\<close>

lemma length_lsb_loop [simp]: "length (lsb_loop i bits flat) = length flat"
  by (induction i bits flat rule: lsb_loop.induct) simp_all

lemma nth_lsb_loop:
  assumes "i + length bits \<le> length flat" and "j < length flat"
  shows "lsb_loop i bits flat ! j =
           (if i \<le> j \<and> j < i + length bits then lsb_set (flat ! j) (bits ! (j - i)) else flat ! j)"
  using assms
proof (induction i bits flat rule: lsb_loop.induct)
  case (1 i flat)
  then show ?case by auto
next
  case (2 i b bits flat)
  have IH: "lsb_loop (Suc i) bits (flat[i := lsb_set (flat ! i) b]) ! j =
      (if Suc i \<le> j \<and> j < Suc i + length bits
       then lsb_set (flat[i := lsb_set (flat ! i) b] ! j) (bits ! (j - Suc i))
       else flat[i := lsb_set (flat ! i) b] ! j)"
    using "2.prems" by (intro "2.IH") simp_all
  show ?case
  proof (cases "j = i")
    case True
    with "2.prems" IH show ?thesis by simp
  next
    case False
    then have "i \<le> j \<longleftrightarrow> Suc i \<le> j" by auto
    moreover have "Suc i \<le> j \<Longrightarrow> (b # bits) ! (j - i) = bits ! (j - Suc i)"
      by (simp add: Suc_diff_Suc)
    ultimately show ?thesis using IH False by auto
  qed
qed

lemma lsb_bits_lsb_loop:
  assumes "length bits \<le> length flat"
  shows "lsb_bits (lsb_loop 0 bits flat) = bits @ lsb_bits (drop (length bits) flat)"
proof (rule nth_equalityI)
  show "length (lsb_bits (lsb_loop 0 bits flat)) = length (bits @ lsb_bits (drop (length bits) flat))"
    using assms by (simp add: lsb_bits_def)
next
  fix j assume "j < length (lsb_bits (lsb_loop 0 bits flat))"
  then have j: "j < length flat" by (simp add: lsb_bits_def)
  show "lsb_bits (lsb_loop 0 bits flat) ! j = (bits @ lsb_bits (drop (length bits) flat)) ! j"
    using assms j by (auto simp add: lsb_bits_def nth_lsb_loop nth_append nth_drop)
qed

lemma word_of_int_and_1: "((word_of_int x :: int16_word) AND 1 = 1) \<longleftrightarrow> odd x"
proof -
  have "((word_of_int x :: int16_word) AND 1 = 1) \<longleftrightarrow> bit (word_of_int x :: int16_word) 0"
    by (simp add: bit_word_iff_drop_bit_and)
  also have "\<dots> \<longleftrightarrow> bit x 0" by (simp only: bit_word_of_int_iff) simp
  also have "\<dots> \<longleftrightarrow> odd x" by (simp add: bit_0)
  finally show ?thesis .
qed

lemma lsb_bits_word_of_int: "lsb_bits (map word_of_int xs) = map odd xs"
  by (simp add: lsb_bits_def word_of_int_and_1)

lemma lsb_set_idem [simp]: "lsb_set (lsb_set w b) b = lsb_set w b"
  by (simp only: lsb_set_def [of "lsb_set w b"] lsb_set_upper) (simp add: lsb_set_def)


subsection \<open>Encoding and decoding a buffer\<close>

lemma encode_lsb_None_iff:
  "encode_lsb a m = None \<longleftrightarrow> length (frames a) < length (encode_bits m)"
  by (simp add: encode_lsb_def read_wav_bytes_def Let_def)

lemma encode_lsb_Some:
  assumes "length (encode_bits m) \<le> length (frames a)"
  shows "encode_lsb a m =
     Some \<lparr>params = params a,
           frames = map sint (lsb_loop 0 (encode_bits m) (map word_of_int (frames a)))\<rparr>"
proof -
  let ?L = "lsb_loop 0 (encode_bits m) (map (word_of_int :: int \<Rightarrow> int16_word) (frames a))"
  have "list_all in_int16 (map sint ?L)" by (simp add: list_all_iff)
  then have w: "write_wav_bytes (map real_of_int (map sint ?L)) (params a)
                  = \<lparr>params = params a, frames = map sint ?L\<rparr>"
    by (rule write_wav_bytes_of_int)
  have "encode_lsb a m = Some (write_wav_bytes (map real_of_int (map sint ?L)) (params a))"
    using assms by (simp add: encode_lsb_def read_wav_bytes_def Let_def comp_def)
  with w show ?thesis by simp
qed

lemma decode_lsb_frames:
  "decode_lsb a = (case decode_chars lsb_stop [] (lsb_bits (map word_of_int (frames a))) of
                     Some m \<Rightarrow> m | None \<Rightarrow> no_hidden_message)"
  by (simp add: decode_lsb_def read_wav_bytes_def comp_def)

text \<open>What the decoder reads from an encoded buffer: the framed message followed by the
  low bits of the samples the encoder did not touch.\<close>

lemma decode_encode_lsb:
  assumes "length (encode_bits m) \<le> length (frames a)"
  shows "map_option decode_lsb (encode_lsb a m) =
           Some (case decode_chars lsb_stop []
                        (encode_bits m @ map odd (drop (length (encode_bits m)) (frames a))) of
                   Some r \<Rightarrow> r | None \<Rightarrow> no_hidden_message)"
proof -
  let ?flat = "map (word_of_int :: int \<Rightarrow> int16_word) (frames a)"
  have "lsb_bits (map word_of_int (map sint (lsb_loop 0 (encode_bits m) ?flat)))
          = encode_bits m @ lsb_bits (drop (length (encode_bits m)) ?flat)"
    using assms by (simp add: comp_def lsb_bits_lsb_loop)
  also have "\<dots> = encode_bits m @ map odd (drop (length (encode_bits m)) (frames a))"
    by (simp add: drop_map lsb_bits_word_of_int)
  finally show ?thesis
    using assms by (simp add: encode_lsb_Some decode_lsb_frames)
qed

lemma decode_encode_lsb_prefix:
  assumes "length (encode_bits m) \<le> length (frames a)"
    and "encode_bits m = concat (map format_08b (p @ terminator)) @ rest"
    and "list_all (\<lambda>c. 0 < c \<and> c < 256) p"
    and "\<not> sublist terminator (p @ butlast terminator)"
  shows "map_option decode_lsb (encode_lsb a m) = Some p"
proof -
  have "decode_chars lsb_stop [] (concat (map format_08b (p @ terminator)) @
          (rest @ map odd (drop (length (encode_bits m)) (frames a)))) = Some p"
    using assms(3,4) by (intro decode_chars_framed) (auto simp: lsb_stop_def list_all_iff)
  with assms(2) show ?thesis
    using decode_encode_lsb [OF assms(1)] by simp
qed

text \<open>The effect of a successful encoding on the buffer and on each sample.\<close>

lemma lsb_encode_result:
  assumes "encode_lsb a m = Some a'"
  shows "length (encode_bits m) \<le> length (frames a)"
    and "a' = \<lparr>params = params a,
                frames = map sint (lsb_loop 0 (encode_bits m) (map word_of_int (frames a)))\<rparr>"
proof -
  show cap: "length (encode_bits m) \<le> length (frames a)"
    using assms encode_lsb_None_iff [of a m] by auto
  show "a' = \<lparr>params = params a,
                frames = map sint (lsb_loop 0 (encode_bits m) (map word_of_int (frames a)))\<rparr>"
    using assms encode_lsb_Some [OF cap] by simp
qed

lemma lsb_encode_nth:
  assumes "encode_lsb a m = Some a'" and "i < length (frames a)"
  shows "frames a' ! i = sint (if i < length (encode_bits m)
            then lsb_set (word_of_int (frames a ! i)) (encode_bits m ! i) else word_of_int (frames a ! i))"
  using assms(2) lsb_encode_result [OF assms(1)] by (simp add: nth_lsb_loop)

subsection \<open>Properties of the LSB engine\<close>

text \<open>C1: LSB round trip.  For a message of characters in 1..255 that does not contain
  the terminator early (the message followed by \<open>"##"\<close> has no \<open>"###"\<close>) and whose
  framed bit length fits the number of samples, \<open>encode_lsb\<close> succeeds and
  \<open>decode_lsb\<close> of its output returns the message.\<close>

theorem lsb_roundtrip:
  assumes "list_all (\<lambda>c. 0 < c \<and> c < 256) m"
    and "\<not> sublist terminator (m @ butlast terminator)"
    and "length (encode_bits m) \<le> length (frames a)"
  shows "map_option decode_lsb (encode_lsb a m) = Some m"
  using assms(3) _ assms(1,2) by (rule decode_encode_lsb_prefix) (simp add: encode_bits_def)

text \<open>The spec's concrete scenario: \<open>"HI"\<close> in a silent 16,000-sample mono buffer.\<close>

theorem lsb_roundtrip_witness:
  "list_all (\<lambda>c. 0 < c \<and> c < 256) (of_string ''HI'') \<and>
   \<not> sublist terminator (of_string ''HI'' @ butlast terminator) \<and>
   length (encode_bits (of_string ''HI'')) \<le> length (frames (silent_mono 16000)) \<and>
   map_option decode_lsb (encode_lsb (silent_mono 16000) (of_string ''HI'')) = Some (of_string ''HI'')"
proof -
  have h1: "list_all (\<lambda>c. 0 < c \<and> c < 256) (of_string ''HI'')" by (simp add: of_string_def)
  have h2: "\<not> sublist terminator (of_string ''HI'' @ butlast terminator)" by code_simp
  have h3: "length (encode_bits (of_string ''HI'')) \<le> length (frames (silent_mono 16000))"
    by (simp add: encode_bits_def terminator_eq of_string_def silent_mono_def format_08b_def
        bin_digits.simps)
  show ?thesis using h1 h2 h3 lsb_roundtrip [OF h1 h2 h3] by blast
qed

text \<open>C2: LSB capacity.  For a message of byte-sized characters, \<open>encode_lsb\<close> returns
  the too-large result exactly when the buffer has fewer samples than the
  \<open>8 * (len(message) + 3)\<close> framed bits; a frame that fills the buffer exactly fits.\<close>

theorem lsb_capacity:
  assumes "list_all (\<lambda>c. c < 256) m"
  shows "encode_lsb a m = None \<longleftrightarrow> length (frames a) < 8 * (length m + 3)"
proof -
  have "length (encode_bits m) = 8 * (length m + 3)"
    using assms by (simp add: encode_bits_def length_encode_chars terminator_eq list_all_iff)
  then show ?thesis by (simp add: encode_lsb_None_iff)
qed

theorem lsb_capacity_witness:
  "list_all (\<lambda>c. c < 256) (of_string ''HI'') \<and>
   encode_lsb (silent_mono 40) (of_string ''HI'') \<noteq> None \<and>
   encode_lsb (silent_mono 39) (of_string ''HI'') = None"
proof -
  have h: "list_all (\<lambda>c. c < 256) (of_string ''HI'')" by (simp add: of_string_def)
  show ?thesis
    using h lsb_capacity [OF h, of "silent_mono 40"] lsb_capacity [OF h, of "silent_mono 39"]
    by (simp add: silent_mono_def of_string_def)
qed

text \<open>The encoding of \<open>"HI"\<close> into 40 silent samples, computed by the kernel.\<close>

lemma encode_lsb_HI_40:
  "encode_lsb (silent_mono 40) (of_string ''HI'') =
     Some \<lparr>params = params (silent_mono 40), frames = map of_bool (encode_bits (of_string ''HI''))\<rparr>"
  by code_simp

text \<open>C3: LSB changes only the least significant bit.  A successful encoding keeps the
  format parameters and the number of samples, and every sample keeps its upper 15 bits
  (the sample read as an unsigned 16-bit pattern, masked with \<open>0xFFFE\<close>).\<close>

theorem lsb_preserves_upper_bits:
  assumes "encode_lsb a m = Some a'"
  shows "params a' = params a \<and> length (frames a') = length (frames a) \<and>
         (\<forall>i<length (frames a).
            (word_of_int (frames a' ! i) :: int16_word) AND 0xFFFE = word_of_int (frames a ! i) AND 0xFFFE)"
proof (intro conjI allI impI)
  show "params a' = params a" "length (frames a') = length (frames a)"
    using lsb_encode_result (2) [OF assms] by simp_all
  fix i assume "i < length (frames a)"
  then show "(word_of_int (frames a' ! i) :: int16_word) AND 0xFFFE = word_of_int (frames a ! i) AND 0xFFFE"
    by (simp add: lsb_encode_nth [OF assms])
qed

theorem lsb_preserves_upper_bits_witness:
  "encode_lsb (silent_mono 40) (of_string ''HI'') =
     Some \<lparr>params = params (silent_mono 40), frames = map of_bool (encode_bits (of_string ''HI''))\<rparr> \<and>
   params (silent_mono 40) = params (silent_mono 40) \<and>
   length (map of_bool (encode_bits (of_string ''HI'')) :: int list) = length (frames (silent_mono 40)) \<and>
   (word_of_int (map of_bool (encode_bits (of_string ''HI'')) ! 1) :: int16_word) AND 0xFFFE
     = word_of_int (frames (silent_mono 40) ! 1) AND 0xFFFE"
proof -
  let ?a' = "\<lparr>params = params (silent_mono 40), frames = map of_bool (encode_bits (of_string ''HI''))\<rparr>"
  have h: "(1::nat) < length (frames (silent_mono 40))" by (simp add: silent_mono_def)
  note all = lsb_preserves_upper_bits [OF encode_lsb_HI_40]
  then have "(word_of_int (frames ?a' ! 1) :: int16_word) AND 0xFFFE
               = word_of_int (frames (silent_mono 40) ! 1) AND 0xFFFE"
    using h by blast
  moreover have "length (frames ?a') = length (frames (silent_mono 40))" using all by blast
  ultimately show ?thesis
    using encode_lsb_HI_40 by (simp only: wav_audio.select_convs simp_thms)
qed

text \<open>C4: LSB carries the message bits.  After a successful encoding of a buffer of
  16-bit samples, sample \<open>i\<close> is odd exactly when bit \<open>i\<close> of the framed message is
  set, for every \<open>i\<close> below the framed length, and every later sample is unchanged.\<close>

theorem lsb_embeds_message_bits:
  assumes "encode_lsb a m = Some a'" and "wf_audio a" and "i < length (frames a)"
  shows "if i < length (encode_bits m) then odd (frames a' ! i) = encode_bits m ! i
         else frames a' ! i = frames a ! i"
  using assms(2,3)
  by (simp add: lsb_encode_nth [OF assms(1,3)] wf_audio_def list_all_iff sint_word_of_int_16
      flip: word_and_1_odd_sint)

theorem lsb_embeds_message_bits_witness:
  "encode_lsb (silent_mono 40) (of_string ''HI'') =
     Some \<lparr>params = params (silent_mono 40), frames = map of_bool (encode_bits (of_string ''HI''))\<rparr> \<and>
   wf_audio (silent_mono 40) \<and> (1::nat) < length (frames (silent_mono 40)) \<and>
   odd (map of_bool (encode_bits (of_string ''HI'')) ! 1 :: int) = encode_bits (of_string ''HI'') ! 1"
proof -
  have h2: "wf_audio (silent_mono 40)" by (simp add: wf_audio_def silent_mono_def in_int16_def list_all_iff)
  have h3: "(1::nat) < length (frames (silent_mono 40))" by (simp add: silent_mono_def)
  have "1 < length (encode_bits (of_string ''HI''))"
    by (simp add: encode_bits_def of_string_def terminator_eq format_08b_def bin_digits.simps)
  then show ?thesis
    using encode_lsb_HI_40 h2 h3 lsb_embeds_message_bits [OF encode_lsb_HI_40 h2 h3] by simp
qed

text \<open>C7: the decoder stops at the first terminator.  When a message contains
  \<open>"###"\<close>, decoding returns only the part before its first occurrence: the check
  \<open>"".join(chars).endswith("###")\<close> runs after every character, so the trailing
  terminator appended by the encoder is never reached.\<close>

theorem lsb_first_terminator_wins:
  assumes "list_all (\<lambda>c. 0 < c \<and> c < 256) p"
    and "\<not> sublist terminator (p @ butlast terminator)"
    and "length (encode_bits (p @ terminator @ q)) \<le> length (frames a)"
  shows "map_option decode_lsb (encode_lsb a (p @ terminator @ q)) = Some p"
  using assms(3) _ assms(1,2) by (rule decode_encode_lsb_prefix) (simp add: encode_bits_def)

theorem lsb_first_terminator_wins_witness:
  "list_all (\<lambda>c. 0 < c \<and> c < 256) (of_string ''a'') \<and>
   \<not> sublist terminator (of_string ''a'' @ butlast terminator) \<and>
   length (encode_bits (of_string ''a'' @ terminator @ of_string ''b'')) \<le> length (frames (silent_mono 64)) \<and>
   map_option decode_lsb (encode_lsb (silent_mono 64) (of_string ''a'' @ terminator @ of_string ''b''))
     = Some (of_string ''a'')"
proof -
  have h1: "list_all (\<lambda>c. 0 < c \<and> c < 256) (of_string ''a'')" by (simp add: of_string_def)
  have h2: "\<not> sublist terminator (of_string ''a'' @ butlast terminator)" by code_simp
  have h3: "length (encode_bits (of_string ''a'' @ terminator @ of_string ''b'')) \<le> length (frames (silent_mono 64))"
    by code_simp
  show ?thesis using h1 h2 h3 lsb_first_terminator_wins [OF h1 h2 h3] by blast
qed

text \<open>C8: a NUL character truncates the message to nothing.  When the message contains
  the character 0 after a terminator-free prefix, the decoder meets the byte 0 and stops
  with the not-found result, although the encoding succeeded.\<close>

theorem lsb_nul_truncates:
  assumes "list_all (\<lambda>c. 0 < c \<and> c < 256) p"
    and "\<not> sublist terminator p"
    and "length (encode_bits (p @ 0 # q)) \<le> length (frames a)"
  shows "map_option decode_lsb (encode_lsb a (p @ 0 # q)) = Some no_hidden_message"
proof -
  have "decode_chars lsb_stop [] (concat (map format_08b p) @ format_08b 0 @
          (concat (map format_08b (q @ terminator)) @
           map odd (drop (length (encode_bits (p @ 0 # q))) (frames a)))) = None"
    using assms(1,2) by (intro decode_chars_stop_char) (auto simp: lsb_stop_def list_all_iff)
  then show ?thesis
    using decode_encode_lsb [OF assms(3)] by (simp add: encode_bits_def)
qed

theorem lsb_nul_truncates_witness:
  "list_all (\<lambda>c. 0 < c \<and> c < 256) (of_string ''a'') \<and> \<not> sublist terminator (of_string ''a'') \<and>
   length (encode_bits (of_string ''a'' @ 0 # of_string ''b'')) \<le> length (frames (silent_mono 48)) \<and>
   map_option decode_lsb (encode_lsb (silent_mono 48) (of_string ''a'' @ 0 # of_string ''b''))
     = Some no_hidden_message"
proof -
  have h1: "list_all (\<lambda>c. 0 < c \<and> c < 256) (of_string ''a'')" by (simp add: of_string_def)
  have h2: "\<not> sublist terminator (of_string ''a'')" by code_simp
  have h3: "length (encode_bits (of_string ''a'' @ 0 # of_string ''b'')) \<le> length (frames (silent_mono 48))"
    by code_simp
  show ?thesis using h1 h2 h3 lsb_nul_truncates [OF h1 h2 h3] by blast
qed

text \<open>C9: not-found determinism.  A buffer whose samples are all even (for instance a
  silent, never-embedded buffer) decodes to the not-found string: its first byte is 0, or
  it is shorter than one byte.\<close>

theorem lsb_decode_even_not_found:
  assumes "list_all even (frames a)"
  shows "decode_lsb a = no_hidden_message"
proof -
  have "decode_chars lsb_stop [] (map odd (frames a)) = None"
    using assms by (intro decode_chars_zero_byte)
      (auto simp: lsb_stop_def list_all_iff dest: in_set_takeD)
  then show ?thesis by (simp add: decode_lsb_frames lsb_bits_word_of_int)
qed

theorem lsb_decode_even_not_found_witness:
  "list_all even (frames (silent_mono 16000)) \<and> decode_lsb (silent_mono 16000) = no_hidden_message"
proof -
  have h: "list_all even (frames (silent_mono 16000))" by (simp add: silent_mono_def list_all_iff)
  show ?thesis using h lsb_decode_even_not_found [OF h] by blast
qed



end
