(* ===== verification/Echo.thy ===== *)
theory Echo
  imports BitCodec SampleBuffer
begin

text \<open>
  Echo hiding, \<open>encode_echo_simple\<close> and \<open>decode_echo_simple\<close> of \<open>src/app.py\<close>
  (lines 76--110 and 113--172).  Bit \<open>i\<close> of the framed message is carried by chunk
  \<open>i\<close> of \<open>chunk_size\<close> samples: the encoder adds the chunk, scaled by \<open>alpha\<close>,
  \<open>d1\<close> samples later for a 1 and \<open>d0\<close> samples later for a 0 (\<open>echo_loop\<close>, the
  \<open>for i, bit in enumerate(bits)\<close> loop with its \<open>break\<close> and its bounds check).  The
  decoder takes the difference of stego and original over each chunk extended by the
  larger delay and compares the correlation of the original chunk with the difference at
  the two delays (\<open>echo_scan\<close>, the \<open>for i in range(num_chunks)\<close> loop).  Sample arrays
  are float32 in the code and exact reals here.  The chunk size, a constant of both
  functions, is a parameter of the loops, instantiated with 8192 by the two entry points.
\<close>

definition chunk_size :: nat where
  "chunk_size = 8192"

type_synonym echo_diag = "nat \<times> real \<times> real \<times> bool"

fun echo_loop ::
  "nat \<Rightarrow> nat \<Rightarrow> nat \<Rightarrow> nat \<Rightarrow> real \<Rightarrow> real list \<Rightarrow> nat \<Rightarrow> bitstr \<Rightarrow> real list \<Rightarrow> real list" where
  "echo_loop C max_delay d0 d1 alpha samples i [] out = out"
| "echo_loop C max_delay d0 d1 alpha samples i (b # bits) out =
     (let start = i * C;
          end = min (start + C) (length samples - max_delay)
      in if end \<le> start then out
         else
           let delay = (if b then d1 else d0);
               chunk = slice samples start end;
               echo_start = start + delay;
               echo_end = echo_start + length chunk;
               out' = (if echo_end \<le> length out
                       then add_slice out echo_start (map (\<lambda>x. alpha * x) chunk) else out)
           in echo_loop C max_delay d0 d1 alpha samples (Suc i) bits out')"

definition encode_echo_simple :: "wav_audio \<Rightarrow> pystr \<Rightarrow> nat \<Rightarrow> nat \<Rightarrow> real \<Rightarrow> wav_audio option" where
  "encode_echo_simple audio message d0 d1 alpha =
     (let (samples, p) = read_wav_bytes audio;
          bits = encode_bits message;
          max_delay = max d0 d1
      in if length bits * chunk_size + max_delay > length samples then None
         else Some (write_wav_bytes (echo_loop chunk_size max_delay d0 d1 alpha samples 0 bits samples) p))"

text \<open>\<open>np.abs(np.sum(a * b))\<close> for two arrays of the same length.\<close>

definition corr :: "real list \<Rightarrow> real list \<Rightarrow> real" where
  "corr xs ys = \<bar>sum_list (map2 (*) xs ys)\<bar>"

text \<open>One pass of the decoding loop over the chunk indices \<open>is\<close>; \<open>n\<close> is the length of
  the shorter buffer.  It returns the decided bits and the diagnostic entries
  \<open>(i, corr_d0, corr_d1, bit)\<close> (the code formats them into strings).\<close>

fun echo_scan ::
  "nat \<Rightarrow> nat \<Rightarrow> nat \<Rightarrow> nat \<Rightarrow> real list \<Rightarrow> real list \<Rightarrow> nat \<Rightarrow> nat list \<Rightarrow> bitstr \<times> echo_diag list" where
  "echo_scan C max_delay d0 d1 original stego n [] = ([], [])"
| "echo_scan C max_delay d0 d1 original stego n (i # is) =
     (let start = i * C;
          end = start + C
      in if end + max_delay > n then ([], [])
         else
           let echo = map2 (-) (slice stego start (end + max_delay)) (slice original start (end + max_delay));
               orig_chunk = slice original start end;
               echo_d0 = slice echo d0 (d0 + length orig_chunk);
               echo_d1 = slice echo d1 (d1 + length orig_chunk);
               corr_d0 = corr orig_chunk echo_d0;
               corr_d1 = corr orig_chunk echo_d1;
               b = corr_d1 > corr_d0;
               (bits, debug_info) = echo_scan C max_delay d0 d1 original stego n is
           in (b # bits, (i, corr_d0, corr_d1, b) # debug_info))"

definition decode_echo_simple ::
  "wav_audio \<Rightarrow> wav_audio \<Rightarrow> nat \<Rightarrow> nat \<Rightarrow> pystr \<times> echo_diag list \<times> bitstr" where
  "decode_echo_simple original_audio stego_audio d0 d1 =
     (let (original, _) = read_wav_bytes original_audio;
          (stego, _) = read_wav_bytes stego_audio;
          max_delay = max d0 d1;
          n = min (length original) (length stego);
          num_chunks = (int n - int max_delay) div int chunk_size;
          (bits, debug_info) = echo_scan chunk_size max_delay d0 d1 original stego n [0..<nat num_chunks]
      in ((case decode_chars echo_stop [] bits of Some m \<Rightarrow> m | None \<Rightarrow> no_hidden_message),
          debug_info, bits))"

text \<open>The abstract effect of the encoder: every sample receives, for each bit \<open>k\<close>, the
  sample \<open>delay\<close> positions earlier scaled by \<open>alpha\<close> when it falls in the echo
  window of chunk \<open>k\<close>.  \<open>echo_tap\<close> is one chunk's contribution, \<open>echo_sum\<close> their
  sum over the bits from chunk \<open>i\<close> on.\<close>

definition echo_tap :: "nat \<Rightarrow> nat \<Rightarrow> nat \<Rightarrow> real list \<Rightarrow> nat \<Rightarrow> bool \<Rightarrow> nat \<Rightarrow> real" where
  "echo_tap C d0 d1 xs k b p =
     (let delay = (if b then d1 else d0)
      in if k * C + delay \<le> p \<and> p < k * C + delay + C then xs ! (p - delay) else 0)"

fun echo_sum :: "nat \<Rightarrow> nat \<Rightarrow> nat \<Rightarrow> real list \<Rightarrow> nat \<Rightarrow> bitstr \<Rightarrow> nat \<Rightarrow> real" where
  "echo_sum C d0 d1 xs k [] p = 0"
| "echo_sum C d0 d1 xs k (b # bits) p = echo_tap C d0 d1 xs k b p + echo_sum C d0 d1 xs (Suc k) bits p"

declare chunk_size_def [model_defs] encode_echo_simple_def [model_defs] corr_def [model_defs]
  decode_echo_simple_def [model_defs]

subsection \<open>The embedding loop\<close>

lemma length_echo_loop [simp]:
  "length (echo_loop C md d0 d1 alpha xs i bits out) = length out"
  by (induction C md d0 d1 alpha xs i bits out rule: echo_loop.induct) (simp_all add: Let_def)

lemma echo_loop_step:
  assumes "i * C + C + md \<le> length xs" "0 < C" "(if b then d1 else d0) \<le> md" "length out = length xs"
  shows "echo_loop C md d0 d1 alpha xs i (b # bits) out
       = echo_loop C md d0 d1 alpha xs (Suc i) bits
           (add_slice out (i * C + (if b then d1 else d0)) (map (\<lambda>x. alpha * x) (slice xs (i * C) (i * C + C))))"
proof -
  have e: "min (i * C + C) (length xs - md) = i * C + C" using assms(1) by simp
  have l: "length (slice xs (i * C) (i * C + C)) = C" using assms(1) by simp
  have f: "i * C + (if b then d1 else d0) + length (slice xs (i * C) (i * C + C)) \<le> length out"
    using assms l by simp
  show ?thesis
    using assms(2) f by (simp only: echo_loop.simps Let_def e) (simp add: l)
qed
lemma add_slice_echo_tap:
  assumes "i * C + C + md \<le> length xs" "(if b then d1 else d0) \<le> md" "length out = length xs" "p < length xs"
  shows "add_slice out (i * C + (if b then d1 else d0)) (map (\<lambda>x. alpha * x) (slice xs (i * C) (i * C + C))) ! p
       = out ! p + alpha * echo_tap C d0 d1 xs i b p"
proof -
  let ?d = "if b then d1 else d0"
  have l: "length (map (\<lambda>x. alpha * x) (slice xs (i * C) (i * C + C))) = C" using assms(1) by simp
  have f: "i * C + ?d + length (map (\<lambda>x. alpha * x) (slice xs (i * C) (i * C + C))) \<le> length out"
    using assms l by simp
  have "add_slice out (i * C + ?d) (map (\<lambda>x. alpha * x) (slice xs (i * C) (i * C + C))) ! p
        = (if i * C + ?d \<le> p \<and> p < i * C + ?d + C
           then out ! p + (map (\<lambda>x. alpha * x) (slice xs (i * C) (i * C + C))) ! (p - (i * C + ?d))
           else out ! p)"
    using nth_add_slice [OF f] assms(3,4) l by simp
  also have "\<dots> = out ! p + alpha * echo_tap C d0 d1 xs i b p"
    using assms(1) by (auto simp: echo_tap_def Let_def)
  finally show ?thesis .
qed
text \<open>Once the capacity check holds, neither the \<open>break\<close> nor the bounds check of the
  loop ever fires, and each step adds exactly one chunk's echo.\<close>

lemma echo_loop_nth:
  assumes "(i + length bits) * C + md \<le> length xs" and "d0 \<le> md" and "d1 \<le> md" and "0 < C"
    and "length out = length xs" and "p < length xs"
  shows "echo_loop C md d0 d1 alpha xs i bits out ! p = out ! p + alpha * echo_sum C d0 d1 xs i bits p"
  using assms
proof (induction bits arbitrary: i out)
  case Nil
  then show ?case by simp
next
  case (Cons b bits)
  let ?out' = "add_slice out (i * C + (if b then d1 else d0)) (map (\<lambda>x. alpha * x) (slice xs (i * C) (i * C + C)))"
  have room: "i * C + C + md \<le> length xs"
    using Cons.prems(1) by (simp add: algebra_simps)
  have dl: "(if b then d1 else d0) \<le> md" using Cons.prems(2,3) by simp
  have fits: "length ?out' = length xs"
    using room dl Cons.prems(5) by simp
  have IH: "echo_loop C md d0 d1 alpha xs (Suc i) bits ?out' ! p
              = ?out' ! p + alpha * echo_sum C d0 d1 xs (Suc i) bits p"
  proof (rule Cons.IH)
    show "(Suc i + length bits) * C + md \<le> length xs" using Cons.prems(1) by simp
  qed (use Cons.prems fits in simp_all)
  have "echo_loop C md d0 d1 alpha xs i (b # bits) out ! p
          = echo_loop C md d0 d1 alpha xs (Suc i) bits ?out' ! p"
    by (simp only: echo_loop_step [OF room Cons.prems(4) dl Cons.prems(5)])
  also have "\<dots> = out ! p + alpha * echo_tap C d0 d1 xs i b p + alpha * echo_sum C d0 d1 xs (Suc i) bits p"
    by (simp only: IH add_slice_echo_tap [OF room dl Cons.prems(5,6)])
  also have "\<dots> = out ! p + alpha * echo_sum C d0 d1 xs i (b # bits) p"
    by (simp add: distrib_left)
  finally show ?case .
qed

subsection \<open>The encoder on a buffer\<close>

lemma encode_echo_None_iff:
  "encode_echo_simple a m d0 d1 alpha = None \<longleftrightarrow>
     length (frames a) < length (encode_bits m) * chunk_size + max d0 d1"
  by (simp add: encode_echo_simple_def read_wav_bytes_def Let_def)

lemma encode_echo_result:
  assumes "encode_echo_simple a m d0 d1 alpha = Some a'"
  shows "length (encode_bits m) * chunk_size + max d0 d1 \<le> length (frames a)"
    and "a' = write_wav_bytes (echo_loop chunk_size (max d0 d1) d0 d1 alpha (map real_of_int (frames a)) 0
                 (encode_bits m) (map real_of_int (frames a))) (params a)"
proof -
  show "length (encode_bits m) * chunk_size + max d0 d1 \<le> length (frames a)"
    using assms encode_echo_None_iff [of a m d0 d1 alpha] by auto
  then show "a' = write_wav_bytes (echo_loop chunk_size (max d0 d1) d0 d1 alpha (map real_of_int (frames a)) 0
                 (encode_bits m) (map real_of_int (frames a))) (params a)"
    using assms by (simp add: encode_echo_simple_def read_wav_bytes_def Let_def)
qed

lemma encode_echo_shape:
  assumes "encode_echo_simple a m d0 d1 alpha = Some a'"
  shows "params a' = params a" and "length (frames a') = length (frames a)"
  by (simp_all add: encode_echo_result(2) [OF assms] write_wav_bytes_def)

lemma encode_echo_nth:
  assumes "encode_echo_simple a m d0 d1 alpha = Some a'" and "p < length (frames a)"
  shows "frames a' ! p = to_int16 (clip16 (real_of_int (frames a ! p) +
           alpha * echo_sum chunk_size d0 d1 (map real_of_int (frames a)) 0 (encode_bits m) p))"
proof -
  note r = encode_echo_result [OF assms(1)]
  have "echo_loop chunk_size (max d0 d1) d0 d1 alpha (map real_of_int (frames a)) 0
          (encode_bits m) (map real_of_int (frames a)) ! p
        = real_of_int (frames a ! p) + alpha * echo_sum chunk_size d0 d1 (map real_of_int (frames a)) 0 (encode_bits m) p"
    using r(1) assms(2) by (subst echo_loop_nth) (simp_all add: chunk_size_def)
  then show "frames a' ! p = to_int16 (clip16 (real_of_int (frames a ! p) +
           alpha * echo_sum chunk_size d0 d1 (map real_of_int (frames a)) 0 (encode_bits m) p))"
    using assms(2) by (simp add: r(2) write_wav_bytes_def)
qed

lemma echo_sum_zero:
  "list_all (\<lambda>x. x = 0) xs \<Longrightarrow> p < length xs \<Longrightarrow> echo_sum C d0 d1 xs k bits p = 0"
  by (induction bits arbitrary: k) (auto simp: echo_tap_def Let_def list_all_iff)

lemma encode_echo_silent:
  assumes "list_all (\<lambda>x. x = 0) (frames a)"
    and "length (encode_bits m) * chunk_size + max d0 d1 \<le> length (frames a)"
  shows "encode_echo_simple a m d0 d1 alpha = Some a"
proof -
  obtain a' where a': "encode_echo_simple a m d0 d1 alpha = Some a'"
    using assms(2) encode_echo_None_iff [of a m d0 d1 alpha] by fastforce
  have "frames a' = frames a"
  proof (rule nth_equalityI)
    show "length (frames a') = length (frames a)" by (rule encode_echo_shape(2) [OF a'])
    fix p assume "p < length (frames a')"
    then have p: "p < length (frames a)" by (simp add: encode_echo_shape(2) [OF a'])
    have z: "list_all (\<lambda>x. x = 0) (map real_of_int (frames a))"
      using assms(1) by (simp add: list_all_iff)
    have "frames a ! p = 0" using assms(1) p by (simp add: list_all_iff)
    then show "frames a' ! p = frames a ! p"
      using p z by (simp add: encode_echo_nth [OF a' p] echo_sum_zero clip16_def to_int16_def)
  qed
  then have "a' = a" using encode_echo_shape(1) [OF a'] by (cases a', cases a) simp
  with a' show ?thesis by simp
qed

subsection \<open>The decoder\<close>

lemma list_all_slice: "list_all P xs \<Longrightarrow> list_all P (slice xs a b)"
  by (auto simp: list_all_iff slice_def dest: in_set_takeD in_set_dropD)

lemma corr_zero_right: "list_all (\<lambda>x. x = 0) ys \<Longrightarrow> corr xs ys = 0"
proof (induction xs arbitrary: ys)
  case Nil
  then show ?case by (simp add: corr_def)
next
  case (Cons x xs)
  then show ?case by (cases ys) (simp_all add: corr_def)
qed

lemma echo_scan_same_bits:
  "list_all Not (fst (echo_scan C md d0 d1 xs xs n is))"
proof (induction "is")
  case Nil
  then show ?case by simp
next
  case (Cons i "is")
  have z: "list_all (\<lambda>x. x = 0) (map2 (-) ys ys)" for ys :: "real list"
    by (induction ys) simp_all
  show ?case
    using Cons by (auto simp: Let_def corr_zero_right list_all_slice z split: prod.splits)
qed

lemma echo_scan_all_chunks:
  assumes "\<forall>i\<in>set is. i * C + C + md \<le> n"
  shows "length (fst (echo_scan C md d0 d1 xs ys n is)) = length is \<and>
         map fst (snd (echo_scan C md d0 d1 xs ys n is)) = is"
  using assms by (induction "is") (auto simp: Let_def split: prod.splits)

lemma chunk_fits:
  assumes "0 < C" and "i < nat ((int n - int md) div int C)"
  shows "i * C + C + md \<le> n"
proof -
  let ?x = "int n - int md"
  have q: "int i + 1 \<le> ?x div int C" using assms(2) by linarith
  have "?x div int C * int C + ?x mod int C = ?x" by (rule div_mult_mod_eq)
  moreover have "0 \<le> ?x mod int C" using assms(1) by simp
  moreover have "(int i + 1) * int C \<le> ?x div int C * int C"
    using q assms(1) by (intro mult_right_mono) simp_all
  ultimately have "(int i + 1) * int C \<le> ?x" by linarith
  then have "int (i * C + C + md) \<le> int n" by (simp add: algebra_simps)
  then show ?thesis by linarith
qed

lemma decode_echo_scan:
  "decode_echo_simple a b d0 d1 =
     (let n = min (length (frames a)) (length (frames b));
          k = nat ((int n - int (max d0 d1)) div int chunk_size);
          r = echo_scan chunk_size (max d0 d1) d0 d1 (map real_of_int (frames a)) (map real_of_int (frames b)) n [0..<k]
      in ((case decode_chars echo_stop [] (fst r) of Some m \<Rightarrow> m | None \<Rightarrow> no_hidden_message),
          snd r, fst r))"
  by (simp add: decode_echo_simple_def read_wav_bytes_def Let_def split: prod.splits)

lemma decode_chars_echo_all_zero:
  "list_all Not bits \<Longrightarrow> decode_chars echo_stop [] bits = None"
  by (intro decode_chars_zero_byte) (auto simp: echo_stop_def list_all_iff dest: in_set_takeD)

lemma echo_scan_equal_delays:
  "list_all Not (fst (echo_scan C md d d xs ys n is))"
  by (induction "is") (auto simp: Let_def split: prod.splits)

lemma echo_loop_equal_delays:
  "length bs = length bs' \<Longrightarrow>
     echo_loop C md d d alpha xs i bs out = echo_loop C md d d alpha xs i bs' out"
proof (induction bs arbitrary: bs' i out)
  case Nil
  then show ?case by simp
next
  case (Cons b bs)
  then obtain b' bs'' where "bs' = b' # bs''" and "length bs = length bs''"
    by (cases bs') auto
  with Cons.IH show ?case by (simp add: Let_def)
qed

lemma echo_scan_diag:
  "map (\<lambda>(i, c0, c1, b). b) (snd (echo_scan C md d0 d1 xs ys n is)) = fst (echo_scan C md d0 d1 xs ys n is) \<and>
   list_all (\<lambda>(i, c0, c1, b). b = (c0 < c1) \<and> 0 \<le> c0 \<and> 0 \<le> c1) (snd (echo_scan C md d0 d1 xs ys n is))"
proof (induction "is")
  case Nil
  then show ?case by simp
next
  case (Cons i "is")
  obtain bits diag where r: "echo_scan C md d0 d1 xs ys n is = (bits, diag)" by fastforce
  with Cons.IH show ?case by (simp add: Let_def corr_def)
qed

subsection \<open>Properties of the echo engine\<close>

text \<open>C13: echo capacity.  For a message of byte-sized characters,
  \<open>encode_echo_simple\<close> returns the too-large result exactly when the buffer is shorter
  than \<open>8 * (len(message) + 3) * 8192 + max(d0, d1)\<close> samples.\<close>

theorem echo_capacity:
  assumes "list_all (\<lambda>c. c < 256) m"
  shows "encode_echo_simple a m d0 d1 alpha = None \<longleftrightarrow>
           length (frames a) < 8 * (length m + 3) * 8192 + max d0 d1"
proof -
  have "length (encode_bits m) = 8 * (length m + 3)"
    using assms by (simp add: encode_bits_def length_encode_chars terminator_eq list_all_iff)
  then show ?thesis by (simp add: encode_echo_None_iff chunk_size_def)
qed

text \<open>The spec's scenario: \<open>"HI"\<close> with delays 200 and 400 needs 328,080 samples, so a
  50,000-sample buffer is too small, and the boundary is exact.\<close>

theorem echo_capacity_witness:
  "list_all (\<lambda>c. c < 256) (of_string ''HI'') \<and>
   encode_echo_simple (silent_mono 50000) (of_string ''HI'') 200 400 (1/2) = None \<and>
   encode_echo_simple (silent_mono 328079) (of_string ''HI'') 200 400 (1/2) = None \<and>
   encode_echo_simple (silent_mono 328080) (of_string ''HI'') 200 400 (1/2) \<noteq> None"
proof -
  have h: "list_all (\<lambda>c. c < 256) (of_string ''HI'')" by (simp add: of_string_def)
  show ?thesis
    using h echo_capacity [OF h, of "silent_mono 50000" 200 400 "1/2"]
      echo_capacity [OF h, of "silent_mono 328079" 200 400 "1/2"]
      echo_capacity [OF h, of "silent_mono 328080" 200 400 "1/2"]
    by (simp add: silent_mono_def of_string_def)
qed

lemma encode_echo_silent_HI:
  "encode_echo_simple (silent_mono 328080) (of_string ''HI'') 200 400 (1/2) = Some (silent_mono 328080)"
proof (rule encode_echo_silent)
  show "list_all (\<lambda>x. x = 0) (frames (silent_mono 328080))" by (simp add: silent_mono_def list_all_iff)
  show "length (encode_bits (of_string ''HI'')) * chunk_size + max 200 400 \<le> length (frames (silent_mono 328080))"
    by (simp add: encode_bits_def of_string_def terminator_eq length_encode_chars silent_mono_def
        chunk_size_def)
qed

text \<open>C14: the echo encoder implements additive superposition.  After a successful
  encoding, each stego sample is the clipped, truncated value of the original sample plus
  \<open>alpha\<close> times the sum of the original samples \<open>delay\<close> positions earlier over every
  chunk whose echo window covers it (\<open>echo_sum\<close>): the \<open>break\<close> and the bounds check
  of the loop never drop a chunk, and echoes of neighbouring chunks add up.\<close>

theorem echo_encode_superposition:
  assumes "encode_echo_simple a m d0 d1 alpha = Some a'" and "p < length (frames a)"
  shows "frames a' ! p = to_int16 (clip16 (real_of_int (frames a ! p) +
           alpha * echo_sum chunk_size d0 d1 (map real_of_int (frames a)) 0 (encode_bits m) p))"
  by (rule encode_echo_nth [OF assms])

theorem echo_encode_superposition_witness:
  "encode_echo_simple (silent_mono 328080) (of_string ''HI'') 200 400 (1/2) = Some (silent_mono 328080) \<and>
   (0::nat) < length (frames (silent_mono 328080)) \<and>
   frames (silent_mono 328080) ! 0 = to_int16 (clip16 (real_of_int (frames (silent_mono 328080) ! 0) +
     1/2 * echo_sum chunk_size 200 400 (map real_of_int (frames (silent_mono 328080))) 0
             (encode_bits (of_string ''HI'')) 0))"
proof -
  have h: "(0::nat) < length (frames (silent_mono 328080))" by (simp add: silent_mono_def)
  show ?thesis
    using encode_echo_silent_HI h echo_encode_superposition [OF encode_echo_silent_HI h] by blast
qed

text \<open>C17: the echo encoder saturates instead of wrapping.  When the original sample plus
  the echoes added to it leaves the 16-bit range, the stego sample is the nearest bound
  (\<open>np.clip\<close> before \<open>astype(np.int16)\<close> in \<open>write_wav_bytes\<close>), never a value
  wrapped round to the other sign.\<close>

theorem echo_encode_saturates:
  assumes "encode_echo_simple a m d0 d1 alpha = Some a'" and "p < length (frames a)"
  shows "(32767 \<le> real_of_int (frames a ! p) +
            alpha * echo_sum chunk_size d0 d1 (map real_of_int (frames a)) 0 (encode_bits m) p
            \<longrightarrow> frames a' ! p = 32767) \<and>
         (real_of_int (frames a ! p) +
            alpha * echo_sum chunk_size d0 d1 (map real_of_int (frames a)) 0 (encode_bits m) p \<le> -32768
            \<longrightarrow> frames a' ! p = -32768)"
  by (simp add: encode_echo_nth [OF assms] clip16_def to_int16_def)

lemma encode_bits_Nil: "encode_bits [] =
  [False, False, True, False, False, False, True, True, False, False, True, False, False, False, True, True,
   False, False, True, False, False, False, True, True]"
  by code_simp

theorem echo_encode_saturates_witness:
  "\<exists>a'. encode_echo_simple ((silent_mono 197008)\<lparr>frames := replicate 197008 30000\<rparr>) [] 200 400 (1/2) = Some a' \<and>
        (300::nat) < 197008 \<and> frames a' ! 300 = 32767"
proof -
  let ?a = "(silent_mono 197008)\<lparr>frames := replicate 197008 (30000::int)\<rparr>"
  have "\<not> length (frames ?a) < length (encode_bits []) * chunk_size + max 200 400"
    by (simp add: encode_bits_Nil chunk_size_def)
  then obtain a' where e: "encode_echo_simple ?a [] 200 400 (1/2) = Some a'"
    using encode_echo_None_iff [of ?a "[]" 200 400 "1/2"] by fastforce
  have p: "300 < length (frames ?a)" by simp
  have "echo_sum chunk_size 200 400 (map real_of_int (frames ?a)) 0 (encode_bits []) 300 = 30000"
    by (simp add: encode_bits_Nil chunk_size_def echo_tap_def)
  then have "frames a' ! 300 = 32767"
    using echo_encode_saturates [OF e p] by simp
  with e show ?thesis by auto
qed

text \<open>C15: not-found determinism for echo.  Decoding a buffer against itself (an
  unmodified original) gives zero correlations, hence only 0 bits, and the not-found
  string.\<close>

theorem echo_decode_unmodified:
  "fst (decode_echo_simple a a d0 d1) = no_hidden_message \<and>
   list_all Not (snd (snd (decode_echo_simple a a d0 d1)))"
proof -
  let ?r = "echo_scan chunk_size (max d0 d1) d0 d1 (map real_of_int (frames a)) (map real_of_int (frames a))
              (length (frames a)) [0..<nat ((int (length (frames a)) - int (max d0 d1)) div int chunk_size)]"
  have f: "list_all Not (fst ?r)" by (rule echo_scan_same_bits)
  then have "decode_chars echo_stop [] (fst ?r) = None" by (rule decode_chars_echo_all_zero)
  with f show ?thesis by (simp add: decode_echo_scan Let_def)
qed

text \<open>C16: the decoder reads one bit per full chunk of the shorter buffer.  The number
  of decided bits and diagnostics is \<open>(min(len(original), len(stego)) - max(d0, d1)) // 8192\<close>
  (none when that is negative): the lengths are truncated to the shorter one, and the
  \<open>break\<close> of the loop never fires.\<close>

theorem echo_decode_chunks:
  "length (snd (snd (decode_echo_simple a b d0 d1)))
     = nat ((int (min (length (frames a)) (length (frames b))) - int (max d0 d1)) div int chunk_size) \<and>
   map fst (fst (snd (decode_echo_simple a b d0 d1)))
     = [0..<nat ((int (min (length (frames a)) (length (frames b))) - int (max d0 d1)) div int chunk_size)]"
proof -
  have "\<forall>i\<in>set [0..<nat ((int (min (length (frames a)) (length (frames b))) - int (max d0 d1)) div int chunk_size)].
          i * chunk_size + chunk_size + max d0 d1 \<le> min (length (frames a)) (length (frames b))"
    by (auto intro: chunk_fits simp: chunk_size_def)
  then show ?thesis
    by (simp add: decode_echo_scan Let_def echo_scan_all_chunks)
qed

text \<open>C18: the echo decoder's stricter stop test.  A message byte in 128..255, which
  the encoder accepts, ends echo decoding with nothing found, even when the bits are read
  back exactly.\<close>

theorem echo_decoder_rejects_high_bytes:
  assumes "list_all (\<lambda>c. 0 < c \<and> c \<le> 127) p" and "\<not> sublist terminator p"
    and "127 < c" and "c < 256"
  shows "decode_chars echo_stop [] (encode_bits (p @ c # q) @ rest) = None"
proof -
  have "decode_chars echo_stop [] (concat (map format_08b p) @ format_08b c @
          (concat (map format_08b (q @ terminator)) @ rest)) = None"
    using assms by (intro decode_chars_stop_char) (auto simp: echo_stop_def list_all_iff)
  then show ?thesis by (simp add: encode_bits_def)
qed

theorem echo_decoder_rejects_high_bytes_witness:
  "list_all (\<lambda>c. 0 < c \<and> c \<le> 127) (of_string ''caf'') \<and> \<not> sublist terminator (of_string ''caf'') \<and>
   127 < (233::nat) \<and> (233::nat) < 256 \<and>
   decode_chars echo_stop [] (encode_bits (of_string ''caf'' @ [233]) @ []) = None"
proof -
  have h1: "list_all (\<lambda>c. 0 < c \<and> c \<le> 127) (of_string ''caf'')" by (simp add: of_string_def)
  have h2: "\<not> sublist terminator (of_string ''caf'')" by code_simp
  have h3: "127 < (233::nat)" and h4: "(233::nat) < 256" by simp_all
  show ?thesis
    using h1 h2 h3 h4 echo_decoder_rejects_high_bytes [OF h1 h2 h3 h4, of "[]" "[]"] by simp
qed

text \<open>C27: with equal delays for the two bit values, which both Streamlit tabs allow,
  the decoder reads only 0 bits, whatever the two buffers, and reports nothing found.\<close>

theorem echo_decode_equal_delays:
  "fst (decode_echo_simple a b d d) = no_hidden_message \<and>
   list_all Not (snd (snd (decode_echo_simple a b d d)))"
proof -
  let ?r = "echo_scan chunk_size (max d d) d d (map real_of_int (frames a)) (map real_of_int (frames b))
              (min (length (frames a)) (length (frames b)))
              [0..<nat ((int (min (length (frames a)) (length (frames b))) - int (max d d)) div int chunk_size)]"
  have f: "list_all Not (fst ?r)" by (rule echo_scan_equal_delays)
  then have "decode_chars echo_stop [] (fst ?r) = None" by (rule decode_chars_echo_all_zero)
  with f show ?thesis by (simp add: decode_echo_scan Let_def)
qed

text \<open>C28: with equal delays the encoder's output does not depend on the message beyond
  its framed length: any two messages with the same number of bits give the same stego
  buffer, so nothing of the message is embedded.\<close>

theorem echo_encode_equal_delays:
  assumes "length (encode_bits m) = length (encode_bits m')"
  shows "encode_echo_simple a m d d alpha = encode_echo_simple a m' d d alpha"
proof -
  have "echo_loop chunk_size (max d d) d d alpha xs 0 (encode_bits m) xs =
        echo_loop chunk_size (max d d) d d alpha xs 0 (encode_bits m') xs" for xs
    using assms by (rule echo_loop_equal_delays)
  with assms show ?thesis by (simp add: encode_echo_simple_def Let_def split: prod.splits)
qed

theorem echo_encode_equal_delays_witness:
  "length (encode_bits (of_string ''HI'')) = length (encode_bits (of_string ''OK'')) \<and>
   encode_echo_simple (silent_mono 328080) (of_string ''HI'') 200 200 (1 / 2) =
   encode_echo_simple (silent_mono 328080) (of_string ''OK'') 200 200 (1 / 2)"
proof -
  have l: "length (encode_bits (of_string ''HI'')) = length (encode_bits (of_string ''OK''))"
    by code_simp
  from l show ?thesis by (simp only: echo_encode_equal_delays [OF l] simp_thms)
qed

text \<open>C34: the decoder's three results agree: the diagnostic entries
  \<open>(i, corr_d0, corr_d1, bit)\<close> carry exactly the decided bits, in order, each bit is
  \<open>corr_d1 > corr_d0\<close>, and both correlations are absolute values.\<close>

theorem echo_decode_diag:
  "map (\<lambda>(i, c0, c1, b). b) (fst (snd (decode_echo_simple a b d0 d1))) = snd (snd (decode_echo_simple a b d0 d1)) \<and>
   list_all (\<lambda>(i, c0, c1, b). b = (c0 < c1) \<and> 0 \<le> c0 \<and> 0 \<le> c1) (fst (snd (decode_echo_simple a b d0 d1)))"
  using echo_scan_diag by (simp add: decode_echo_scan Let_def)

end
