(* ===== verification/EchoRoundtrip.thy ===== *)
theory EchoRoundtrip
  imports Echo
begin

text \<open>
  A deterministic echo round trip.  The spec promises that \<open>decode_echo_simple\<close>
  recovers the message from \<open>encode_echo_simple\<close>'s output for a long enough,
  non-silent original, two different delays and a strength of at least 0.3, and states it
  only as probable: the echoes of neighbouring chunks leak into each correlation, and the
  echo is truncated to 16 bits.  Both effects vanish on a click track, an original with
  one impulse of amplitude \<open>A\<close> at the start of every 8192-sample chunk, when
  \<open>alpha * A\<close> is a 16-bit integer \<open>B\<close>.  The stego sample at \<open>p\<close> is then the original
  plus \<open>B\<close> exactly where chunk \<open>p div 8192\<close> puts its echo
  (\<open>encode_echo_impulse_nth\<close>), the correlation of a chunk with the difference at a
  delay is \<open>|A|\<close> times the difference at that one position (\<open>corr_impulse\<close>,
  \<open>echo_scan_impulse\<close>), and every decided bit is the bit sent (\<open>echo_bit_impulse\<close>).
\<close>

definition impulse_train :: "nat \<Rightarrow> int \<Rightarrow> nat \<Rightarrow> int list" where
  "impulse_train C amp n = map (\<lambda>q. if q mod C = 0 then amp else 0) [0..<n]"

definition click_track :: "nat \<Rightarrow> int \<Rightarrow> wav_audio" where
  "click_track n amp = (silent_mono n)\<lparr>frames := impulse_train chunk_size amp n\<rparr>"

lemma length_impulse_train [simp]: "length (impulse_train C amp n) = n"
  by (simp add: impulse_train_def)

lemma nth_impulse_train [simp]:
  "q < n \<Longrightarrow> impulse_train C amp n ! q = (if q mod C = 0 then amp else 0)"
  by (simp add: impulse_train_def)

lemma echo_tap_impulse:
  assumes "p < length xs" and "\<And>q. q < length xs \<Longrightarrow> xs ! q = (if q mod C = 0 then A else 0)"
    and "d0 < C" and "d1 < C"
  shows "echo_tap C d0 d1 xs k b p = (if p = k * C + (if b then d1 else d0) then A else 0)"
proof -
  let ?d = "if b then d1 else d0"
  have d: "?d < C" using assms(3,4) by simp
  show ?thesis
  proof (cases "k * C + ?d \<le> p \<and> p < k * C + ?d + C")
    case True
    then obtain j where j: "p = k * C + ?d + j" "j < C" by (metis add_less_cancel_left le_Suc_ex)
    then have "(p - ?d) mod C = 0 \<longleftrightarrow> j = 0"
      by (simp add: add.commute [of "k * C"])
    then show ?thesis
      using True j assms(1) assms(2) [of "p - ?d"] by (auto simp: echo_tap_def Let_def)
  next
    case False
    then show ?thesis using d by (auto simp: echo_tap_def Let_def)
  qed
qed


lemma echo_sum_impulse:
  assumes "p < length xs" and "\<And>q. q < length xs \<Longrightarrow> xs ! q = (if q mod C = 0 then A else 0)"
    and "d0 < C" and "d1 < C"
  shows "echo_sum C d0 d1 xs k bits p =
           (if k \<le> p div C \<and> p div C < k + length bits \<and>
               p mod C = (if bits ! (p div C - k) then d1 else d0) then A else 0)"
proof (induction bits arbitrary: k)
  case Nil
  then show ?case by simp
next
  case (Cons b bits)
  let ?d = "if b then d1 else d0"
  have C: "0 < C" using assms(3) by simp
  have tap: "echo_tap C d0 d1 xs k b p = (if p = k * C + ?d then A else 0)"
    by (rule echo_tap_impulse [OF assms])
  have dm: "p = k * C + ?d \<longleftrightarrow> p div C = k \<and> p mod C = ?d"
  proof
    assume "p = k * C + ?d"
    then show "p div C = k \<and> p mod C = ?d" using assms(3,4) by simp
  next
    assume "p div C = k \<and> p mod C = ?d"
    then show "p = k * C + ?d" using div_mult_mod_eq [of p C] by simp
  qed
  show ?case
  proof (cases "p div C = k")
    case True
    then show ?thesis using Cons.IH [of "Suc k"] tap dm by auto
  next
    case False
    then have "p \<noteq> k * C + ?d" using dm by blast
    moreover have "k < p div C \<Longrightarrow> (b # bits) ! (p div C - k) = bits ! (p div C - Suc k)"
      by (simp add: Suc_diff_Suc [symmetric] del: Suc_diff_Suc)
    ultimately show ?thesis using Cons.IH [of "Suc k"] tap False by auto
  qed
qed


lemma encode_echo_impulse_nth:
  assumes enc: "encode_echo_simple a m d0 d1 alpha = Some a'"
    and fa: "frames a = impulse_train chunk_size A n"
    and B: "alpha * real_of_int A = real_of_int B" and "in_int16 A" and "in_int16 B"
    and "0 < d0" and "0 < d1" and "d0 < chunk_size" and "d1 < chunk_size"
    and p: "p < n"
  shows "frames a' ! p = frames a ! p +
           (if p div chunk_size < length (encode_bits m) \<and>
               p mod chunk_size = (if encode_bits m ! (p div chunk_size) then d1 else d0) then B else 0)"
proof -
  let ?xs = "map real_of_int (frames a)"
  have xs: "?xs ! q = (if q mod chunk_size = 0 then real_of_int A else 0)" if "q < length ?xs" for q
    using that fa by simp
  have pl: "p < length ?xs" using p fa by simp
  have e: "frames a' ! p = to_int16 (clip16 (real_of_int (frames a ! p) +
           alpha * echo_sum chunk_size d0 d1 ?xs 0 (encode_bits m) p))"
    using encode_echo_nth [OF enc] pl by simp
  note sum = echo_sum_impulse [OF pl xs assms(8,9), of 0 "encode_bits m"]
  show ?thesis
  proof (cases "p div chunk_size < length (encode_bits m) \<and>
               p mod chunk_size = (if encode_bits m ! (p div chunk_size) then d1 else d0)")
    case True
    then have "p mod chunk_size \<noteq> 0" using assms(6,7) by auto
    then have "frames a ! p = 0" using fa p by simp
    with True show ?thesis using e sum B assms(5) by simp
  next
    case False
    have r: "in_int16 (frames a ! p)" using fa p assms(4) by (simp add: in_int16_def)
    from False have "echo_sum chunk_size d0 d1 ?xs 0 (encode_bits m) p = 0"
      by (subst sum) auto
    with r e have "frames a' ! p = frames a ! p" by simp
    then show ?thesis by (subst if_not_P [OF False]) simp
  qed
qed


lemma corr_impulse: "length ys = Suc k \<Longrightarrow> corr (a # replicate k 0) ys = \<bar>a * hd ys\<bar>"
proof -
  assume "length ys = Suc k"
  then obtain y ys' where "ys = y # ys'" and "length ys' = k" by (cases ys) auto
  moreover have "sum_list (map2 (*) (replicate k 0) zs) = (0::real)" for zs :: "real list"
    by (induction k arbitrary: zs) (simp, case_tac zs, simp_all)
  ultimately show ?thesis by (simp add: corr_def)
qed

lemma impulse_chunk:
  assumes "i * C + C \<le> length xs" and "0 < C"
    and "\<And>q. q < length xs \<Longrightarrow> xs ! q = (if q mod C = 0 then A else 0)"
  shows "slice xs (i * C) (i * C + C) = A # replicate (C - 1) 0"
proof (rule nth_equalityI)
  show "length (slice xs (i * C) (i * C + C)) = length (A # replicate (C - 1) 0)"
    using assms(1,2) by simp
  fix j assume "j < length (slice xs (i * C) (i * C + C))"
  then have j: "j < C" using assms(1) by simp
  have "(i * C + j) mod C = 0 \<longleftrightarrow> j = 0" using j by (simp add: add.commute [of "i * C"])
  then show "slice xs (i * C) (i * C + C) ! j = (A # replicate (C - 1) 0) ! j"
    using j assms(1) assms(3) [of "i * C + j"] by (cases j) auto
qed

lemma echo_scan_impulse:
  assumes "\<forall>i\<in>set is. i * C + C + md \<le> n" and "n \<le> length xs" and "n \<le> length ys"
    and xs: "\<And>q. q < length xs \<Longrightarrow> xs ! q = (if q mod C = 0 then A else 0)"
    and "d0 \<le> md" and "d1 \<le> md" and "0 < C"
  shows "fst (echo_scan C md d0 d1 xs ys n is) =
           map (\<lambda>i. \<bar>A * (ys ! (i * C + d0) - xs ! (i * C + d0))\<bar>
                     < \<bar>A * (ys ! (i * C + d1) - xs ! (i * C + d1))\<bar>) is"
  using assms(1)
proof (induction "is")
  case Nil
  then show ?case by simp
next
  case (Cons i "is")
  have room: "i * C + C + md \<le> n" using Cons.prems by simp
  let ?oc = "slice xs (i * C) (i * C + C)"
  let ?echo = "map2 (-) (slice ys (i * C) (i * C + C + md)) (slice xs (i * C) (i * C + C + md))"
  have oc: "?oc = A # replicate (C - 1) 0"
    using room assms(2,7) xs by (intro impulse_chunk) simp_all
  have le: "length ?echo = C + md" using room assms(2,3) by simp
  have corr_d: "corr ?oc (slice ?echo d (d + length ?oc)) = \<bar>A * (ys ! (i * C + d) - xs ! (i * C + d))\<bar>"
    if "d \<le> md" for d
  proof -
    have l: "length (slice ?echo d (d + C)) = Suc (C - 1)" using le that assms(7) by simp
    have ne: "slice ?echo d (d + C) \<noteq> []"
    proof
      assume "slice ?echo d (d + C) = []"
      with l show False by (simp only: list.size(3))
    qed
    have "slice ?echo d (d + C) ! 0 = ?echo ! (d + 0)"
      by (rule nth_slice) (simp only: l zero_less_Suc)
    then have "hd (slice ?echo d (d + C)) = ?echo ! d"
      by (simp only: hd_conv_nth [OF ne] add_0_right)
    also have "\<dots> = ys ! (i * C + d) - xs ! (i * C + d)"
      using l le that room assms(2,3,7) by (simp del: length_slice add: algebra_simps)
    finally show ?thesis
      using corr_impulse [OF l, of A] oc assms(7) by simp
  qed
  have "\<not> n < i * C + C + md" using room by simp
  moreover obtain bs dg where "echo_scan C md d0 d1 xs ys n is = (bs, dg)" by fastforce
  ultimately show ?case
    using Cons.IH Cons.prems corr_d [OF assms(5)] corr_d [OF assms(6)] by (simp add: Let_def)
qed


lemma echo_bit_impulse:
  assumes enc: "encode_echo_simple a m d0 d1 alpha = Some a'"
    and fa: "frames a = impulse_train chunk_size A n"
    and B: "alpha * real_of_int A = real_of_int B" and "in_int16 A" and "in_int16 B"
    and "0 < d0" and "0 < d1" and "d0 < chunk_size" and "d1 < chunk_size"
    and "A \<noteq> 0" and "B \<noteq> 0" and "d0 \<noteq> d1"
    and i: "i < length (encode_bits m)" and cap: "length (encode_bits m) * chunk_size \<le> n"
  shows "(\<bar>real_of_int A * (map real_of_int (frames a') ! (i * chunk_size + d0) -
                            map real_of_int (frames a) ! (i * chunk_size + d0))\<bar>
          < \<bar>real_of_int A * (map real_of_int (frames a') ! (i * chunk_size + d1) -
                            map real_of_int (frames a) ! (i * chunk_size + d1))\<bar>)
         = encode_bits m ! i"
proof -
  have diff: "real_of_int (frames a' ! (i * chunk_size + d)) - real_of_int (frames a ! (i * chunk_size + d))
      = (if d = (if encode_bits m ! i then d1 else d0) then real_of_int B else 0)"
    if "d < chunk_size" for d
  proof -
    have "(i + 1) * chunk_size \<le> n" using i cap by (metis Suc_eq_plus1 Suc_leI mult_le_mono1 order_trans)
    then have p: "i * chunk_size + d < n" using that by simp
    have dm: "(i * chunk_size + d) div chunk_size = i" "(i * chunk_size + d) mod chunk_size = d"
      using that by simp_all
    show ?thesis
      using encode_echo_impulse_nth [OF enc fa B assms(4-9) p] i that by (simp add: dm)
  qed
  have n: "i * chunk_size + d < length (frames a)" "i * chunk_size + d < length (frames a')"
    if "d < chunk_size" for d
  proof -
    have "(i + 1) * chunk_size \<le> n" using i cap by (metis Suc_eq_plus1 Suc_leI mult_le_mono1 order_trans)
    then show "i * chunk_size + d < length (frames a)" using that fa by simp
    then show "i * chunk_size + d < length (frames a')" using encode_echo_shape(2) [OF enc] by simp
  qed
  show ?thesis
    using diff [OF assms(8)] diff [OF assms(9)] n [OF assms(8)] n [OF assms(9)] assms(10-12)
    by (cases "encode_bits m ! i") (simp_all add: abs_mult not_less)
qed


lemma chunks_cover:
  assumes "nb * C + md \<le> n" and "0 < C"
  shows "nb \<le> nat ((int n - int md) div int C)"
proof -
  have "int (nb * C) \<le> int n - int md" using assms(1) by linarith
  then have "int nb * int C \<le> int n - int md" by simp
  then have "int nb * int C div int C \<le> (int n - int md) div int C"
    using assms(2) by (intro zdiv_mono1) simp_all
  then show ?thesis using assms(2) by simp
qed

text \<open>Decided bits that start with the framed message decode to the message, whatever
  the chunks after it carry.\<close>

lemma decode_chars_echo_prefix:
  assumes bits: "map f [0..<length (encode_bits m)] = encode_bits m"
    and K: "length (encode_bits m) \<le> K"
    and msg: "list_all (\<lambda>c. 0 < c \<and> c < 128) m" and tm: "\<not> sublist terminator (m @ butlast terminator)"
  shows "decode_chars echo_stop [] (map f [0..<K]) = Some m"
proof -
  have ups: "[0..<K] = [0..<length (encode_bits m)] @ [length (encode_bits m)..<K]"
    using K by (metis le_add_diff_inverse upt_add_eq_append zero_le)
  define rest where "rest = map f [length (encode_bits m)..<K]"
  have "decode_chars echo_stop [] (encode_bits m @ rest) = Some m"
    unfolding encode_bits_def using msg tm
    by (intro decode_chars_framed) (auto simp: echo_stop_def list_all_iff)
  then show ?thesis unfolding rest_def by (simp only: ups map_append bits)
qed

text \<open>Decoding a click track's echo encoding against the click track returns the
  message.\<close>

lemma decode_encode_echo_impulses:
  assumes enc: "encode_echo_simple a m d0 d1 alpha = Some a'"
    and fa: "frames a = impulse_train chunk_size A n"
    and B: "alpha * real_of_int A = real_of_int B" and "in_int16 A" and "in_int16 B"
    and "0 < d0" and "0 < d1" and "d0 < chunk_size" and "d1 < chunk_size"
    and "A \<noteq> 0" and "B \<noteq> 0" and "d0 \<noteq> d1"
    and msg: "list_all (\<lambda>c. 0 < c \<and> c < 128) m" and tm: "\<not> sublist terminator (m @ butlast terminator)"
  shows "fst (decode_echo_simple a a' d0 d1) = m"
proof -
  let ?C = chunk_size and ?md = "max d0 d1" and ?nb = "length (encode_bits m)"
  have cap: "?nb * ?C + ?md \<le> n"
    using encode_echo_result(1) [OF enc] fa by simp
  let ?xs = "map real_of_int (frames a)" and ?ys = "map real_of_int (frames a')"
  let ?K = "nat ((int (min (length (frames a)) (length (frames a'))) - int ?md) div int ?C)"
  let ?bit = "\<lambda>i. \<bar>real_of_int A * (?ys ! (i * ?C + d0) - ?xs ! (i * ?C + d0))\<bar>
                  < \<bar>real_of_int A * (?ys ! (i * ?C + d1) - ?xs ! (i * ?C + d1))\<bar>"
  have len: "length (frames a') = n" "length (frames a) = n"
    using encode_echo_shape(2) [OF enc] fa by simp_all
  have C: "0 < ?C" by (simp add: chunk_size_def)
  have fits: "\<forall>i\<in>set [0..<?K]. i * ?C + ?C + ?md \<le> min (length (frames a)) (length (frames a'))"
    by (intro ballI chunk_fits [OF C]) simp
  have xs: "?xs ! q = (if q mod ?C = 0 then real_of_int A else 0)" if "q < length ?xs" for q
    using that fa by simp
  have scan: "fst (echo_scan ?C ?md d0 d1 ?xs ?ys (min (length (frames a)) (length (frames a'))) [0..<?K])
      = map ?bit [0..<?K]"
    using fits len C by (intro echo_scan_impulse xs) simp_all
  have K: "?nb \<le> ?K" using chunks_cover [OF cap C] len by simp
  have bits: "map ?bit [0..<?nb] = encode_bits m"
  proof (rule nth_equalityI)
    fix i assume "i < length (map ?bit [0..<?nb])"
    then have i: "i < ?nb" by simp
    have "?nb * ?C \<le> n" using cap by simp
    from echo_bit_impulse [OF enc fa B assms(4-12) i this] i
    show "map ?bit [0..<?nb] ! i = encode_bits m ! i" by simp
  qed simp
  have "decode_chars echo_stop [] (map ?bit [0..<?K]) = Some m"
    using bits K msg tm by (rule decode_chars_echo_prefix)
  then show ?thesis using scan by (simp add: decode_echo_scan Let_def)
qed

text \<open>C35: echo round trip on click tracks.  For two different positive delays below the
  chunk size, a strength that scales the click amplitude to a non-zero 16-bit integer, a
  message of characters in 1..127 without an early terminator, and a buffer with room for
  every chunk and the longer delay, \<open>encode_echo_simple\<close> succeeds and
  \<open>decode_echo_simple\<close>, given the original and the stego buffer, returns the
  message.\<close>

theorem echo_roundtrip_impulses:
  assumes fa: "frames a = impulse_train chunk_size A n"
    and B: "alpha * real_of_int A = real_of_int B" and "in_int16 A" and "in_int16 B"
    and "0 < d0" and "0 < d1" and "d0 < chunk_size" and "d1 < chunk_size"
    and "A \<noteq> 0" and "B \<noteq> 0" and "d0 \<noteq> d1"
    and msg: "list_all (\<lambda>c. 0 < c \<and> c < 128) m" and tm: "\<not> sublist terminator (m @ butlast terminator)"
    and cap: "length (encode_bits m) * chunk_size + max d0 d1 \<le> n"
  shows "\<exists>a'. encode_echo_simple a m d0 d1 alpha = Some a' \<and> fst (decode_echo_simple a a' d0 d1) = m"
proof -
  obtain a' where enc: "encode_echo_simple a m d0 d1 alpha = Some a'"
    using cap fa encode_echo_None_iff [of a m d0 d1 alpha] by fastforce
  with decode_encode_echo_impulses [OF enc fa B assms(3-13)] show ?thesis by blast
qed

theorem echo_roundtrip_impulses_witness:
  "frames (click_track 328080 1000) = impulse_train chunk_size 1000 328080 \<and>
   list_all (\<lambda>c. 0 < c \<and> c < 128) (of_string ''HI'') \<and>
   \<not> sublist terminator (of_string ''HI'' @ butlast terminator) \<and>
   length (encode_bits (of_string ''HI'')) * chunk_size + max 200 400 \<le> 328080 \<and>
   (\<exists>a'. encode_echo_simple (click_track 328080 1000) (of_string ''HI'') 200 400 (1 / 2) = Some a' \<and>
         fst (decode_echo_simple (click_track 328080 1000) a' 200 400) = of_string ''HI'')"
proof -
  have f: "frames (click_track 328080 1000) = impulse_train chunk_size 1000 328080"
    by (simp add: click_track_def)
  have m: "list_all (\<lambda>c. 0 < c \<and> c < 128) (of_string ''HI'')" by code_simp
  have t: "\<not> sublist terminator (of_string ''HI'' @ butlast terminator)" by code_simp
  have l: "length (encode_bits (of_string ''HI'')) = 40" by code_simp
  then have c: "length (encode_bits (of_string ''HI'')) * chunk_size + max 200 400 \<le> (328080::nat)"
    by (simp add: chunk_size_def)
  have "(1 / 2) * real_of_int 1000 = real_of_int 500" by simp
  from echo_roundtrip_impulses [OF f this _ _ _ _ _ _ _ _ _ m t c]
  have "\<exists>a'. encode_echo_simple (click_track 328080 1000) (of_string ''HI'') 200 400 (1 / 2) = Some a' \<and>
         fst (decode_echo_simple (click_track 328080 1000) a' 200 400) = of_string ''HI''"
    by (simp add: in_int16_def chunk_size_def)
  with f m t c show ?thesis by blast
qed

end
