(* ===== verification/Evaluation.thy ===== *)
theory Evaluation
  imports SampleBuffer
begin

text \<open>
  The three evaluation scripts that compare a cover file with its LSB and echo stego
  files.  \<open>src/snr.py\<close> computes the signal-to-noise ratio (\<open>calculate_snr\<close>, lines
  17--24) after truncating the three signals to the shortest (lines 12--15).
  \<open>src/stoi.py\<close> checks that the sampling rates agree, averages stereo channels and
  truncates before calling \<open>pystoi.stoi\<close>.  \<open>src/pesq_eval.py\<close> converts to mono
  (\<open>convert_to_mono\<close>), resamples to 8 or 16 kHz (\<open>resample_audio\<close>), truncates and
  chooses the PESQ mode before calling \<open>pesq.pesq\<close>.
  What \<open>scipy.io.wavfile.read\<close> returns is a rate and an array, one-dimensional for mono
  and two-dimensional (one row of channel samples per frame) otherwise: \<open>wav_array\<close>.
  The external computations (\<open>stoi\<close>, \<open>pesq\<close>, \<open>scipy.signal.resample\<close>) are not
  modelled; the scripts are modelled up to the arguments they pass to them, and the
  resampler is a parameter of the model, of which only the result is used.
  \<open>np.log10\<close> is \<open>log 10\<close> on the reals; its infinite results are constructors of
  \<open>snr_value\<close>.
\<close>

subsection \<open>Signal-to-noise ratio\<close>

datatype snr_value = PosInf | NegInf | Db real

definition signal_power :: "real list \<Rightarrow> real" where
  "signal_power original = sum_list (map (\<lambda>x. x\<^sup>2) original)"

definition noise_power :: "real list \<Rightarrow> real list \<Rightarrow> real" where
  "noise_power original stego = sum_list (map2 (\<lambda>x y. (x - y)\<^sup>2) original stego)"

text \<open>\<open>calculate_snr\<close>: \<open>float('inf')\<close> for a zero noise power; otherwise
  \<open>10 * np.log10(signal_power / noise_power)\<close>, which numpy evaluates to \<open>-inf\<close> when the
  signal power is zero.\<close>

definition calculate_snr :: "real list \<Rightarrow> real list \<Rightarrow> snr_value" where
  "calculate_snr original stego =
     (let sp = signal_power original; np = noise_power original stego
      in if np = 0 then PosInf
         else if sp / np = 0 then NegInf
         else Db (10 * log 10 (sp / np)))"

text \<open>The script body: read, convert to float64, truncate to the shortest signal and
  compute both ratios.\<close>

definition snr_script :: "int list \<Rightarrow> int list \<Rightarrow> int list \<Rightarrow> snr_value \<times> snr_value" where
  "snr_script original stego_lsb stego_echo =
     (let original = map real_of_int original;
          stego_lsb = map real_of_int stego_lsb;
          stego_echo = map real_of_int stego_echo;
          min_len = min (length original) (min (length stego_lsb) (length stego_echo));
          original = take min_len original;
          stego_lsb = take min_len stego_lsb;
          stego_echo = take min_len stego_echo
      in (calculate_snr original stego_lsb, calculate_snr original stego_echo))"

subsection \<open>STOI preparation\<close>

datatype wav_array = Arr1 "int list" | Arr2 "int list list"

datatype script_error = ValueError string | ZeroDivisionError string

text \<open>\<open>np.mean(x, axis=1)\<close> on a two-dimensional array, in float.\<close>

definition mean_rows :: "int list list \<Rightarrow> real list" where
  "mean_rows rows = map (\<lambda>row. real_of_int (sum_list row) / real (length row)) rows"

definition stoi_channel :: "wav_array \<Rightarrow> real list" where
  "stoi_channel a = (case a of Arr1 xs \<Rightarrow> map real_of_int xs | Arr2 rows \<Rightarrow> mean_rows rows)"

text \<open>Lines 36--57 of \<open>src/stoi.py\<close>: the error raised on a rate mismatch, or the
  sampling rate and the three equal-length signals handed to \<open>stoi\<close>.\<close>

definition stoi_prepare ::
  "nat \<times> wav_array \<Rightarrow> nat \<times> wav_array \<Rightarrow> nat \<times> wav_array \<Rightarrow>
     script_error + nat \<times> real list \<times> real list \<times> real list" where
  "stoi_prepare orig lsb echo =
     (let (fs, original) = orig; (fs1, stego_lsb) = lsb; (fs2, stego_echo) = echo
      in if fs \<noteq> fs1 \<or> fs \<noteq> fs2 then Inl (ValueError ''Sampling rates do not match'')
         else
           let original = stoi_channel original;
               stego_lsb = stoi_channel stego_lsb;
               stego_echo = stoi_channel stego_echo;
               min_len = min (length original) (min (length stego_lsb) (length stego_echo))
           in Inr (fs, take min_len original, take min_len stego_lsb, take min_len stego_echo))"

subsection \<open>PESQ preparation\<close>

text \<open>\<open>convert_to_mono\<close>: the channel mean converted with \<open>astype(np.int16)\<close>
  (truncation towards zero), or the mono array unchanged.\<close>

definition convert_to_mono :: "wav_array \<Rightarrow> int list" where
  "convert_to_mono audio =
     (case audio of Arr2 rows \<Rightarrow> map to_int16 (mean_rows rows) | Arr1 xs \<Rightarrow> xs)"

type_synonym resampler = "int list \<Rightarrow> nat \<Rightarrow> real list"

text \<open>\<open>resample_audio\<close>: unchanged when the rates agree; otherwise
  \<open>int(len(audio) * target_rate / orig_rate)\<close> samples from \<open>scipy.signal.resample\<close>,
  converted with \<open>astype(np.int16)\<close>.  The true division raises
  \<open>ZeroDivisionError\<close> for a zero original rate.\<close>

definition resample_audio ::
  "resampler \<Rightarrow> int list \<Rightarrow> nat \<Rightarrow> nat \<Rightarrow> script_error + int list \<times> nat" where
  "resample_audio resample audio orig_rate target_rate =
     (if orig_rate = target_rate then Inr (audio, target_rate)
      else if orig_rate = 0 then Inl (ZeroDivisionError ''division by zero'')
      else
        let num_samples = nat \<lfloor>real (length audio) * real target_rate / real orig_rate\<rfloor>;
            resampled = resample audio num_samples
        in Inr (map to_int16 resampled, target_rate))"

datatype pesq_mode = WB | NB

text \<open>Lines 49--55 of \<open>src/pesq_eval.py\<close>: the target rate, and the three calls of
  \<open>resample_audio\<close> when the original rate is neither 8 nor 16 kHz; the first
  exception raised ends the script.  The result is the original, its rate and the
  two stego signals.\<close>

definition pesq_resample ::
  "resampler \<Rightarrow> nat \<Rightarrow> nat \<Rightarrow> nat \<Rightarrow> int list \<Rightarrow> int list \<Rightarrow> int list \<Rightarrow>
     script_error + int list \<times> nat \<times> int list \<times> int list" where
  "pesq_resample resample rate_orig rate_lsb rate_echo original stego_lsb stego_echo =
     (let target_rate = (if rate_orig \<noteq> 8000 then 16000 else 8000)
      in if rate_orig \<notin> {8000, 16000} then
           (case resample_audio resample original rate_orig target_rate of
              Inl e \<Rightarrow> Inl e
            | Inr (original, rate_orig) \<Rightarrow>
                (case resample_audio resample stego_lsb rate_lsb target_rate of
                   Inl e \<Rightarrow> Inl e
                 | Inr (stego_lsb, _) \<Rightarrow>
                     (case resample_audio resample stego_echo rate_echo target_rate of
                        Inl e \<Rightarrow> Inl e
                      | Inr (stego_echo, _) \<Rightarrow> Inr (original, rate_orig, stego_lsb, stego_echo))))
         else Inr (original, rate_orig, stego_lsb, stego_echo))"

text \<open>Lines 34--67 of \<open>src/pesq_eval.py\<close>: the error raised, or the rate, mode and
  three equal-length signals handed to \<open>pesq\<close>.\<close>

definition pesq_prepare ::
  "resampler \<Rightarrow> nat \<times> wav_array \<Rightarrow> nat \<times> wav_array \<Rightarrow> nat \<times> wav_array \<Rightarrow>
     script_error + nat \<times> pesq_mode \<times> int list \<times> int list \<times> int list" where
  "pesq_prepare resample orig lsb echo =
     (let (rate_orig, original) = orig; (rate_lsb, stego_lsb) = lsb; (rate_echo, stego_echo) = echo;
          original = convert_to_mono original;
          stego_lsb = convert_to_mono stego_lsb;
          stego_echo = convert_to_mono stego_echo
      in case pesq_resample resample rate_orig rate_lsb rate_echo original stego_lsb stego_echo of
           Inl e \<Rightarrow> Inl e
         | Inr (original, rate_orig, stego_lsb, stego_echo) \<Rightarrow>
             let min_len = min (length original) (min (length stego_lsb) (length stego_echo));
                 original = take min_len original;
                 stego_lsb = take min_len stego_lsb;
                 stego_echo = take min_len stego_echo;
                 mode = (if rate_orig = 16000 then WB else NB)
             in Inr (rate_orig, mode, original, stego_lsb, stego_echo))"

declare signal_power_def [model_defs] noise_power_def [model_defs] calculate_snr_def [model_defs]

subsection \<open>Lemmas\<close>

lemma noise_power_nonneg: "0 \<le> noise_power xs ys"
  unfolding noise_power_def by (induction xs ys rule: list_induct2') simp_all

lemma signal_power_nonneg: "0 \<le> signal_power xs"
  unfolding signal_power_def by (induction xs) simp_all

lemma noise_power_self [simp]: "noise_power xs xs = 0"
  unfolding noise_power_def by (induction xs) simp_all

lemma noise_power_nth:
  assumes "length xs = length ys"
  shows "noise_power xs ys = (\<Sum>i<length xs. (xs ! i - ys ! i)\<^sup>2)"
  using assms
proof (induction xs ys rule: list_induct2)
  case Nil
  then show ?case by (simp add: noise_power_def)
next
  case (Cons x xs y ys)
  then show ?case by (simp add: noise_power_def sum.lessThan_Suc_shift del: sum.lessThan_Suc)
qed

text \<open>A noise power made of per-sample differences of at most 1, on the first \<open>k\<close>
  samples only, is at most \<open>k\<close>.\<close>

lemma noise_power_le_count:
  assumes "length xs = length ys"
    and "\<And>i. i < length xs \<Longrightarrow> \<bar>xs ! i - ys ! i\<bar> \<le> 1"
    and "\<And>i. i < length xs \<Longrightarrow> k \<le> i \<Longrightarrow> xs ! i = ys ! i"
  shows "noise_power xs ys \<le> real k"
proof -
  have "noise_power xs ys = (\<Sum>i<length xs. (xs ! i - ys ! i)\<^sup>2)"
    using assms(1) by (rule noise_power_nth)
  also have "\<dots> \<le> (\<Sum>i<length xs. if i < k then 1 else 0)"
  proof (rule sum_mono)
    fix i assume "i \<in> {..<length xs}"
    then have i: "i < length xs" by simp
    show "(xs ! i - ys ! i)\<^sup>2 \<le> (if i < k then 1 else 0)"
    proof (cases "i < k")
      case True
      have "\<bar>xs ! i - ys ! i\<bar>\<^sup>2 \<le> 1\<^sup>2"
        using assms(2) [OF i] by (intro power_mono) simp_all
      with True show ?thesis by simp
    next
      case False
      with assms(3) [OF i] show ?thesis by simp
    qed
  qed
  also have "\<dots> = real (card ({..<length xs} \<inter> {..<k}))"
    by (simp add: sum.If_cases flip: lessThan_def)
  also have "\<dots> \<le> real (card {..<k})"
    by (simp only: of_nat_le_iff, rule card_mono) auto
  also have "\<dots> = real k" by simp
  finally show ?thesis .
qed

lemma length_stoi_channel [simp]:
  "length (stoi_channel (Arr1 xs)) = length xs"
  "length (stoi_channel (Arr2 rows)) = length rows"
  by (simp_all add: stoi_channel_def mean_rows_def)

lemma length_convert_to_mono [simp]:
  "length (convert_to_mono (Arr1 xs)) = length xs"
  "length (convert_to_mono (Arr2 rows)) = length rows"
  by (simp_all add: convert_to_mono_def mean_rows_def)

text \<open>Truncating three signals to the shortest one: equal lengths, prefixes of the
  inputs, and one of them kept whole.\<close>

lemma take_min3:
  fixes xs :: "'a list" and ys :: "'b list" and zs :: "'c list"
  defines "n \<equiv> min (length xs) (min (length ys) (length zs))"
  shows "length (take n xs) = length (take n ys) \<and> length (take n ys) = length (take n zs) \<and>
         prefix (take n xs) xs \<and> prefix (take n ys) ys \<and> prefix (take n zs) zs \<and>
         (take n xs = xs \<or> take n ys = ys \<or> take n zs = zs)"
  unfolding n_def by (auto simp: take_is_prefix min_def)

lemma sum_list_int16_bounds:
  "list_all in_int16 xs \<Longrightarrow>
     -32768 * real (length xs) \<le> real_of_int (sum_list xs) \<and>
     real_of_int (sum_list xs) \<le> 32767 * real (length xs)"
  by (induction xs) (auto simp: in_int16_def)

lemma mean_in_int16:
  assumes "row \<noteq> []" and "list_all in_int16 row"
  shows "in_int16 (to_int16 (real_of_int (sum_list row) / real (length row)))"
proof -
  have n: "0 < real (length row)" using assms(1) by simp
  from sum_list_int16_bounds [OF assms(2)] n show ?thesis
    by (intro in_int16_to_int16) (simp_all add: le_divide_eq divide_le_eq)
qed


lemma resample_audio_rate: "resample_audio r xs rt t = Inr (ys, t') \<Longrightarrow> t' = t"
  by (auto simp: resample_audio_def Let_def split: if_splits)

lemma isl_resample_audio: "isl (resample_audio r xs rt t) \<longleftrightarrow> rt \<noteq> t \<and> rt = 0"
  by (simp add: resample_audio_def Let_def)

lemma pesq_resample_fixed:
  "rate_orig \<in> {8000, 16000} \<Longrightarrow>
     pesq_resample r rate_orig rate_lsb rate_echo x y z = Inr (x, rate_orig, y, z)"
  by (auto simp: pesq_resample_def)

lemma pesq_resample_rate:
  assumes "pesq_resample r rate_orig rate_lsb rate_echo x y z = Inr (x', rate', y', z')"
  shows "rate' \<in> {8000, 16000}"
proof (cases "rate_orig \<in> {8000, 16000}")
  case True
  with assms show ?thesis by (simp add: pesq_resample_fixed)
next
  case False
  with assms have "rate' = 16000"
    by (auto simp: pesq_resample_def dest: resample_audio_rate split: sum.splits prod.splits)
  then show ?thesis by simp
qed

lemma isl_pesq_resample:
  "isl (pesq_resample r rate_orig rate_lsb rate_echo x y z) \<longleftrightarrow>
     rate_orig \<notin> {8000, 16000} \<and> (rate_orig = 0 \<or> rate_lsb = 0 \<or> rate_echo = 0)"
proof (cases "rate_orig \<in> {8000, 16000}")
  case True
  then show ?thesis by (simp add: pesq_resample_fixed)
next
  case False
  then have t: "(if rate_orig \<noteq> 8000 then 16000 else 8000) = (16000::nat)" by auto
  have ok: "\<not> isl (resample_audio r xs rt 16000) \<Longrightarrow> \<exists>ys. resample_audio r xs rt 16000 = Inr (ys, 16000)"
    for xs rt by (cases "rt = 16000"; cases "rt = 0") (simp_all add: resample_audio_def Let_def)
  show ?thesis
    using False isl_resample_audio [of r x rate_orig 16000] isl_resample_audio [of r y rate_lsb 16000]
      isl_resample_audio [of r z rate_echo 16000]
      ok [of x rate_orig] ok [of y rate_lsb] ok [of z rate_echo]
    unfolding pesq_resample_def t
    by (cases "resample_audio r x rate_orig 16000"; cases "resample_audio r y rate_lsb 16000";
        cases "resample_audio r z rate_echo 16000") auto
qed

lemma pesq_prepare_Inr:
  assumes "pesq_prepare r (rate_orig, a) (rate_lsb, b) (rate_echo, c) = Inr (rate, mode, x, y, z)"
  obtains x0 y0 z0 where
    "pesq_resample r rate_orig rate_lsb rate_echo (convert_to_mono a) (convert_to_mono b)
       (convert_to_mono c) = Inr (x0, rate, y0, z0)"
    "mode = (if rate = 16000 then WB else NB)"
    "x = take (min (length x0) (min (length y0) (length z0))) x0"
    "y = take (min (length x0) (min (length y0) (length z0))) y0"
    "z = take (min (length x0) (min (length y0) (length z0))) z0"
  using assms by (auto simp: pesq_prepare_def Let_def split: sum.splits prod.splits)

lemma isl_pesq_prepare:
  "isl (pesq_prepare r (rate_orig, a) (rate_lsb, b) (rate_echo, c)) \<longleftrightarrow>
     isl (pesq_resample r rate_orig rate_lsb rate_echo (convert_to_mono a) (convert_to_mono b)
       (convert_to_mono c))"
  by (cases "pesq_resample r rate_orig rate_lsb rate_echo (convert_to_mono a) (convert_to_mono b)
       (convert_to_mono c)") (auto simp: pesq_prepare_def Let_def)

text \<open>C19: \<open>src/stoi.py\<close> raises \<open>ValueError("Sampling rates do not match")\<close>
  exactly when the sampling rate of one of the stego files differs from that of the
  original.\<close>

theorem stoi_rate_mismatch:
  "stoi_prepare (fs, a) (fs1, b) (fs2, c) = Inl (ValueError ''Sampling rates do not match'')
     \<longleftrightarrow> fs \<noteq> fs1 \<or> fs \<noteq> fs2"
  by (simp add: stoi_prepare_def Let_def)

theorem stoi_rate_mismatch_witness:
  "stoi_prepare (16000, Arr1 [1]) (44100, Arr1 [1]) (16000, Arr1 [1])
     = Inl (ValueError ''Sampling rates do not match'')"
  using stoi_rate_mismatch [of 16000 "Arr1 [1]" 44100 "Arr1 [1]" 16000 "Arr1 [1]"] by simp

text \<open>C20: when \<open>src/stoi.py\<close> reaches the \<open>stoi\<close> calls, the three rates agree and the
  three signals have one length: each is a prefix of its mono channel (the channel mean
  of a stereo file), and the shortest channel is passed whole.\<close>

theorem stoi_prepare_aligned:
  assumes "stoi_prepare (fs, a) (fs1, b) (fs2, c) = Inr (r, x, y, z)"
  shows "r = fs \<and> fs1 = fs \<and> fs2 = fs \<and> length x = length y \<and> length y = length z \<and>
         prefix x (stoi_channel a) \<and> prefix y (stoi_channel b) \<and> prefix z (stoi_channel c) \<and>
         (x = stoi_channel a \<or> y = stoi_channel b \<or> z = stoi_channel c)"
proof -
  let ?n = "min (length (stoi_channel a)) (min (length (stoi_channel b)) (length (stoi_channel c)))"
  from assms have "r = fs \<and> fs1 = fs \<and> fs2 = fs \<and> x = take ?n (stoi_channel a) \<and>
      y = take ?n (stoi_channel b) \<and> z = take ?n (stoi_channel c)"
    by (auto simp: stoi_prepare_def Let_def split: if_splits)
  then show ?thesis
    using take_min3 [of "stoi_channel a" "stoi_channel b" "stoi_channel c"] by blast
qed

theorem stoi_prepare_aligned_witness:
  "stoi_prepare (16000, Arr1 [1, 2, 3]) (16000, Arr2 [[2, 4], [6, 8]]) (16000, Arr1 [5, 5, 5, 5])
     = Inr (16000, [1, 2], [3, 7], [5, 5]) \<and>
   prefix [3, 7] (stoi_channel (Arr2 [[2, 4], [6, 8]]))"
proof -
  have eq: "stoi_prepare (16000, Arr1 [1, 2, 3]) (16000, Arr2 [[2, 4], [6, 8]])
      (16000, Arr1 [5, 5, 5, 5]) = Inr (16000, [1, 2], [3, 7], [5, 5])"
    by (simp add: stoi_prepare_def stoi_channel_def mean_rows_def)
  from stoi_prepare_aligned [OF eq] eq show ?thesis by simp
qed

text \<open>C21: whenever \<open>src/pesq_eval.py\<close> reaches the \<open>pesq\<close> calls, the rate it passes
  is 8 or 16 kHz, the mode is \<open>'wb'\<close> exactly at 16 kHz, and the reference and the two
  degraded signals have the same length.\<close>

theorem pesq_prepare_valid:
  assumes "pesq_prepare r (rate_orig, a) (rate_lsb, b) (rate_echo, c) = Inr (rate, mode, x, y, z)"
  shows "rate \<in> {8000, 16000} \<and> (mode = WB \<longleftrightarrow> rate = 16000) \<and>
         length x = length y \<and> length y = length z"
proof -
  from assms obtain x0 y0 z0 where
    res: "pesq_resample r rate_orig rate_lsb rate_echo (convert_to_mono a) (convert_to_mono b)
       (convert_to_mono c) = Inr (x0, rate, y0, z0)"
    and mode: "mode = (if rate = 16000 then WB else NB)"
    and "x = take (min (length x0) (min (length y0) (length z0))) x0"
        "y = take (min (length x0) (min (length y0) (length z0))) y0"
        "z = take (min (length x0) (min (length y0) (length z0))) z0"
    by (rule pesq_prepare_Inr)
  then have "length x = length y \<and> length y = length z"
    using take_min3 [of x0 y0 z0] by blast
  with pesq_resample_rate [OF res] mode show ?thesis by simp
qed

theorem pesq_prepare_valid_witness:
  "pesq_prepare (\<lambda>xs n. replicate n 0) (24000, Arr1 [1, 2, 3]) (24000, Arr1 [1, 2, 3, 4])
     (24000, Arr2 [[1, 1], [2, 2], [3, 3]]) = Inr (16000, WB, [0, 0], [0, 0], [0, 0]) \<and>
   (16000::nat) \<in> {8000, 16000}"
proof -
  have eq: "pesq_prepare (\<lambda>xs n. replicate n 0) (24000, Arr1 [1, 2, 3]) (24000, Arr1 [1, 2, 3, 4])
     (24000, Arr2 [[1, 1], [2, 2], [3, 3]]) = Inr (16000, WB, [0, 0], [0, 0], [0, 0])"
    by (simp add: pesq_prepare_def pesq_resample_def resample_audio_def numeral_2_eq_2
        convert_to_mono_def mean_rows_def to_int16_def)
  from pesq_prepare_valid [OF eq] eq show ?thesis by simp
qed

text \<open>C22: \<open>src/pesq_eval.py\<close> fails (with \<open>ZeroDivisionError\<close> in
  \<open>resample_audio\<close>) exactly when the original rate is neither 8 nor 16 kHz and one of
  the three rates is zero; on every other input it reaches the \<open>pesq\<close> calls.\<close>

theorem pesq_prepare_errors:
  "isl (pesq_prepare r (rate_orig, a) (rate_lsb, b) (rate_echo, c)) \<longleftrightarrow>
     rate_orig \<notin> {8000, 16000} \<and> (rate_orig = 0 \<or> rate_lsb = 0 \<or> rate_echo = 0)"
  by (simp add: isl_pesq_prepare isl_pesq_resample)

theorem pesq_prepare_errors_witness:
  "isl (pesq_prepare (\<lambda>xs n. replicate n 0) (44100, Arr1 [1]) (0, Arr1 [1]) (44100, Arr1 [1])) \<and>
   \<not> isl (pesq_prepare (\<lambda>xs n. replicate n 0) (16000, Arr1 [1]) (0, Arr1 [1]) (0, Arr1 [1]))"
  using pesq_prepare_errors [of "\<lambda>xs n. replicate n 0" 44100 "Arr1 [1]" 0 "Arr1 [1]" 44100 "Arr1 [1]"]
    pesq_prepare_errors [of "\<lambda>xs n. replicate n 0" 16000 "Arr1 [1]" 0 "Arr1 [1]" 0 "Arr1 [1]"]
  by simp

text \<open>C23: when the original is at 8 or 16 kHz, \<open>src/pesq_eval.py\<close> never reads the
  sampling rates of the stego files: they are neither resampled nor checked, so stego
  files at another rate are scored as if they had the original's rate (unlike
  \<open>src/stoi.py\<close>, which rejects a mismatch).\<close>

theorem pesq_ignores_stego_rates:
  assumes "rate_orig \<in> {8000, 16000}"
  shows "pesq_prepare r (rate_orig, a) (rate_lsb, b) (rate_echo, c) =
         pesq_prepare r (rate_orig, a) (rate_orig, b) (rate_orig, c)"
  using assms by (simp add: pesq_prepare_def pesq_resample_fixed)

theorem pesq_ignores_stego_rates_witness:
  "pesq_prepare (\<lambda>xs n. replicate n 0) (16000, Arr1 [1, 2]) (44100, Arr1 [3, 4]) (8000, Arr1 [5, 6]) =
   Inr (16000, WB, [1, 2], [3, 4], [5, 6])"
proof -
  have "pesq_prepare (\<lambda>xs n. replicate n 0) (16000, Arr1 [1, 2]) (16000, Arr1 [3, 4]) (16000, Arr1 [5, 6]) =
      Inr (16000, WB, [1, 2], [3, 4], [5, 6])"
    by (simp add: pesq_prepare_def pesq_resample_def convert_to_mono_def)
  with pesq_ignores_stego_rates [of 16000 "\<lambda>xs n. replicate n 0" "Arr1 [1, 2]" 44100 "Arr1 [3, 4]" 8000
      "Arr1 [5, 6]"] show ?thesis by simp
qed

text \<open>C24: on a stereo file of 16-bit frames, \<open>convert_to_mono\<close> yields one 16-bit
  sample per frame: the channel mean truncated by \<open>astype(np.int16)\<close> never leaves
  the 16-bit range, so the conversion never wraps.\<close>

theorem convert_to_mono_in_range:
  assumes "list_all (\<lambda>row. row \<noteq> [] \<and> list_all in_int16 row) rows"
  shows "list_all in_int16 (convert_to_mono (Arr2 rows)) \<and>
         length (convert_to_mono (Arr2 rows)) = length rows"
  using assms by (simp add: convert_to_mono_def mean_rows_def list_all_iff mean_in_int16)

theorem convert_to_mono_in_range_witness:
  "list_all in_int16 (convert_to_mono (Arr2 [[32767, 32766], [-32768, 1]])) \<and>
   convert_to_mono (Arr2 [[32767, 32766], [-32768, 1]]) = [32766, -16383]"
proof -
  have "list_all (\<lambda>row. row \<noteq> [] \<and> list_all in_int16 row) [[32767, 32766], [-32768, 1::int]]"
    by (simp add: in_int16_def)
  from convert_to_mono_in_range [OF this] show ?thesis
    by (simp add: convert_to_mono_def mean_rows_def to_int16_def)
qed

end
