(* ===== verification/UI.thy ===== *)
theory UI
  imports LSB Echo
begin

text \<open>
  The Streamlit page of \<open>src/app.py\<close> (lines 175--312).  Streamlit runs the script again
  after every interaction; the widgets keep their values between runs and a button is
  true only in the run its click caused; a widget that a run does not display is
  discarded and comes back with its default value.  The page is modelled as the record
  \<open>ui_state\<close> of the widget values and of what the last run displayed, and each user
  interaction as an event; \<open>ui_step\<close> is the run the event causes, \<open>None\<close> for an event
  the page does not offer (a slider value outside its range, a button that is not
  shown).  \<open>encode_tab\<close> and \<open>decode_tab\<close> are the output of a run in which the
  corresponding button was clicked.  Uploaded files are the streams the WAV helpers read
  (\<open>wav_audio\<close>); the download button offers the stego stream.  The \<open>except\<close>
  branches are not reachable in the model: the encoders and decoders are total
  functions, and the exceptions of the real code come from parsing the WAV bytes.
\<close>

datatype technique = Tech_LSB | Tech_Echo

text \<open>\<open>st.slider(label, 100, 500, default, 50)\<close>: the delays offered are
  100, 150, ..., 500; \<open>st.slider("Echo Strength", 0.3, 0.8, 0.5, 0.1)\<close> offers
  0.3, 0.4, ..., 0.8.\<close>

definition delay_ok :: "nat \<Rightarrow> bool" where
  "delay_ok d \<longleftrightarrow> 100 \<le> d \<and> d \<le> 500 \<and> (d - 100) mod 50 = 0"

definition alpha_ok :: "real \<Rightarrow> bool" where
  "alpha_ok alpha \<longleftrightarrow> alpha \<in> (\<lambda>k. real k / 10) ` {3..8}"

datatype ui_output =
    Success string
  | Download wav_audio
  | Warning string
  | Error string
  | Code pystr

record ui_state =
  enc_audio :: "wav_audio option"
  enc_message :: pystr
  enc_tech :: technique
  enc_d0 :: nat
  enc_d1 :: nat
  enc_alpha :: real
  dec_tech :: technique
  dec_lsb_file :: "wav_audio option"
  dec_orig_file :: "wav_audio option"
  dec_stego_file :: "wav_audio option"
  dec_d0 :: nat
  dec_d1 :: nat
  shown :: "ui_output list"

text \<open>The first run: no file, an empty text area, the first option of each select box
  and the slider defaults.\<close>

definition ui_init :: ui_state where
  "ui_init = \<lparr>enc_audio = None, enc_message = [], enc_tech = Tech_LSB, enc_d0 = 200, enc_d1 = 400,
     enc_alpha = 1 / 2, dec_tech = Tech_LSB, dec_lsb_file = None, dec_orig_file = None,
     dec_stego_file = None, dec_d0 = 200, dec_d1 = 400, shown = []\<rparr>"

text \<open>Lines 209--240: the encode button is shown when a file is uploaded and the message
  is not empty; its click encodes with the selected technique.\<close>

definition encode_button :: "ui_state \<Rightarrow> bool" where
  "encode_button s \<longleftrightarrow> enc_audio s \<noteq> None \<and> enc_message s \<noteq> []"

definition encode_tab :: "ui_state \<Rightarrow> ui_output list" where
  "encode_tab s =
     (case enc_audio s of
        None \<Rightarrow> []
      | Some audio \<Rightarrow>
          if enc_message s = [] then []
          else
            let stego = (if enc_tech s = Tech_LSB then encode_lsb audio (enc_message s)
                         else encode_echo_simple audio (enc_message s) (enc_d0 s) (enc_d1 s) (enc_alpha s))
            in case stego of
                 Some st \<Rightarrow> [Success ''Encoding successful'', Download st] @
                   (if enc_tech s = Tech_Echo
                    then [Warning ''Keep your original audio file! You'll need it to decode the message.'']
                    else [])
               | None \<Rightarrow> [Error ''Message is too large for this audio file''])"

text \<open>Lines 252--312: the decode button of the LSB view is shown once a stego file is
  uploaded, that of the echo view once both files are.\<close>

definition decode_button :: "ui_state \<Rightarrow> bool" where
  "decode_button s \<longleftrightarrow>
     (if dec_tech s = Tech_LSB then dec_lsb_file s \<noteq> None
      else dec_orig_file s \<noteq> None \<and> dec_stego_file s \<noteq> None)"

definition decode_tab :: "ui_state \<Rightarrow> ui_output list" where
  "decode_tab s =
     (if dec_tech s = Tech_LSB then
        (case dec_lsb_file s of
           None \<Rightarrow> []
         | Some f \<Rightarrow> [Success ''Decoding complete'', Code (decode_lsb f)])
      else
        (case (dec_orig_file s, dec_stego_file s) of
           (Some orig, Some st) \<Rightarrow>
             [Success ''Decoding complete'', Code (fst (decode_echo_simple orig st (dec_d0 s) (dec_d1 s)))]
         | _ \<Rightarrow> []))"

text \<open>A widget that a run does not display loses its value, and is displayed again with
  its default: changing a select box resets the widgets of the view it hides.\<close>

definition reset_enc_echo :: "ui_state \<Rightarrow> ui_state" where
  "reset_enc_echo s = s\<lparr>enc_d0 := 200, enc_d1 := 400, enc_alpha := 1 / 2\<rparr>"

definition reset_dec_views :: "ui_state \<Rightarrow> ui_state" where
  "reset_dec_views s = s\<lparr>dec_lsb_file := None, dec_orig_file := None, dec_stego_file := None,
     dec_d0 := 200, dec_d1 := 400\<rparr>"

datatype ui_event =
    Upload_enc "wav_audio option"
  | Type_message pystr
  | Select_enc technique
  | Slide_enc_d0 nat
  | Slide_enc_d1 nat
  | Slide_alpha real
  | Click_encode
  | Select_dec technique
  | Upload_dec_lsb "wav_audio option"
  | Upload_dec_orig "wav_audio option"
  | Upload_dec_stego "wav_audio option"
  | Slide_dec_d0 nat
  | Slide_dec_d1 nat
  | Click_decode

text \<open>One run of the script after an event.  A widget event changes its value and the
  run displays no result; a click displays the output of its tab.\<close>

fun ui_step :: "ui_state \<Rightarrow> ui_event \<Rightarrow> ui_state option" where
  "ui_step s (Upload_enc f) = Some (s\<lparr>enc_audio := f, shown := []\<rparr>)"
| "ui_step s (Type_message m) = Some (s\<lparr>enc_message := m, shown := []\<rparr>)"
| "ui_step s (Select_enc t) =
     Some (if t = enc_tech s then s\<lparr>shown := []\<rparr> else reset_enc_echo (s\<lparr>enc_tech := t, shown := []\<rparr>))"
| "ui_step s (Slide_enc_d0 d) =
     (if enc_tech s = Tech_Echo \<and> delay_ok d then Some (s\<lparr>enc_d0 := d, shown := []\<rparr>) else None)"
| "ui_step s (Slide_enc_d1 d) =
     (if enc_tech s = Tech_Echo \<and> delay_ok d then Some (s\<lparr>enc_d1 := d, shown := []\<rparr>) else None)"
| "ui_step s (Slide_alpha a) =
     (if enc_tech s = Tech_Echo \<and> alpha_ok a then Some (s\<lparr>enc_alpha := a, shown := []\<rparr>) else None)"
| "ui_step s Click_encode = (if encode_button s then Some (s\<lparr>shown := encode_tab s\<rparr>) else None)"
| "ui_step s (Select_dec t) =
     Some (if t = dec_tech s then s\<lparr>shown := []\<rparr> else reset_dec_views (s\<lparr>dec_tech := t, shown := []\<rparr>))"
| "ui_step s (Upload_dec_lsb f) =
     (if dec_tech s = Tech_LSB then Some (s\<lparr>dec_lsb_file := f, shown := []\<rparr>) else None)"
| "ui_step s (Upload_dec_orig f) =
     (if dec_tech s = Tech_Echo then Some (s\<lparr>dec_orig_file := f, shown := []\<rparr>) else None)"
| "ui_step s (Upload_dec_stego f) =
     (if dec_tech s = Tech_Echo then Some (s\<lparr>dec_stego_file := f, shown := []\<rparr>) else None)"
| "ui_step s (Slide_dec_d0 d) =
     (if dec_tech s = Tech_Echo \<and> delay_ok d then Some (s\<lparr>dec_d0 := d, shown := []\<rparr>) else None)"
| "ui_step s (Slide_dec_d1 d) =
     (if dec_tech s = Tech_Echo \<and> delay_ok d then Some (s\<lparr>dec_d1 := d, shown := []\<rparr>) else None)"
| "ui_step s Click_decode = (if decode_button s then Some (s\<lparr>shown := decode_tab s\<rparr>) else None)"

text \<open>A session: the events of one user in order, from the first run.\<close>

fun ui_run :: "ui_state \<Rightarrow> ui_event list \<Rightarrow> ui_state option" where
  "ui_run s [] = Some s"
| "ui_run s (e # es) = (case ui_step s e of None \<Rightarrow> None | Some s' \<Rightarrow> ui_run s' es)"

inductive ui_reach :: "ui_state \<Rightarrow> bool" where
  init: "ui_reach ui_init"
| step: "ui_reach s \<Longrightarrow> ui_step s e = Some s' \<Longrightarrow> ui_reach s'"

inductive_cases ui_reach_cases: "ui_reach s"

declare delay_ok_def [model_defs] alpha_ok_def [model_defs] encode_button_def [model_defs]
  decode_button_def [model_defs] reset_enc_echo_def [model_defs] reset_dec_views_def [model_defs]

subsection \<open>Lemmas\<close>

lemma ui_reach_run: "ui_reach s \<Longrightarrow> ui_run s es = Some s' \<Longrightarrow> ui_reach s'"
proof (induction es arbitrary: s)
  case Nil
  then show ?case by simp
next
  case (Cons e es)
  then obtain t where "ui_step s e = Some t" and "ui_run t es = Some s'"
    by (auto split: option.splits)
  with Cons show ?case by (blast intro: ui_reach.step)
qed

lemma ui_run_append:
  "ui_run s (es @ es') = (case ui_run s es of None \<Rightarrow> None | Some t \<Rightarrow> ui_run t es')"
  by (induction es arbitrary: s) (auto split: option.splits)

text \<open>The echo path through the page: encoding with the default sliders, then decoding
  the offered file against the original in the echo view.\<close>

lemma ui_run_echo_encode:
  assumes "m \<noteq> []" and "encode_echo_simple a m 200 400 (1 / 2) = Some a'"
  shows "ui_run ui_init [Upload_enc (Some a), Type_message m, Select_enc Tech_Echo, Click_encode] =
     Some (ui_init\<lparr>enc_audio := Some a, enc_message := m, enc_tech := Tech_Echo,
       shown := [Success ''Encoding successful'', Download a',
                 Warning ''Keep your original audio file! You'll need it to decode the message.'']\<rparr>)"
proof -
  let ?s0 = "ui_init\<lparr>enc_audio := Some a, enc_message := m, enc_tech := Tech_Echo\<rparr>"
  have pre: "ui_run ui_init [Upload_enc (Some a), Type_message m, Select_enc Tech_Echo] = Some ?s0"
    by (simp add: ui_init_def reset_enc_echo_def)
  have step: "ui_step ?s0 Click_encode = Some (?s0\<lparr>shown := [Success ''Encoding successful'', Download a',
                 Warning ''Keep your original audio file! You'll need it to decode the message.'']\<rparr>)"
    using assms by (simp add: ui_init_def encode_button_def encode_tab_def)
  have "ui_run ui_init ([Upload_enc (Some a), Type_message m, Select_enc Tech_Echo] @ [Click_encode])
      = Some (?s0\<lparr>shown := [Success ''Encoding successful'', Download a',
                 Warning ''Keep your original audio file! You'll need it to decode the message.'']\<rparr>)"
    by (simp only: ui_run_append pre option.case) (simp only: ui_run.simps step option.case)
  then show ?thesis by (simp only: append_Cons append_Nil)
qed

lemma ui_run_echo_decode:
  assumes "dec_tech s = Tech_LSB"
  shows "ui_run s [Select_dec Tech_Echo, Upload_dec_orig (Some orig), Upload_dec_stego (Some st),
      Click_decode] =
     Some ((reset_dec_views (s\<lparr>dec_tech := Tech_Echo\<rparr>))\<lparr>dec_orig_file := Some orig,
       dec_stego_file := Some st,
       shown := [Success ''Decoding complete'', Code (fst (decode_echo_simple orig st 200 400))]\<rparr>)"
  using assms by (simp add: reset_dec_views_def decode_button_def decode_tab_def)


lemma decode_tab_shown [simp]: "decode_tab (s\<lparr>shown := outs\<rparr>) = decode_tab s"
  by (cases "dec_orig_file s"; cases "dec_stego_file s") (simp_all add: decode_tab_def split: option.split)

subsection \<open>Properties of the page\<close>



text \<open>C30: a user can always get a message through the page with LSB: for a message the
  LSB round trip accepts, uploading a large enough file, typing the message and clicking
  Encode offers a stego file, and uploading that file in the decode tab and clicking
  Decode displays the message.\<close>

theorem ui_lsb_session:
  assumes "list_all (\<lambda>c. 0 < c \<and> c < 256) m"
    and "\<not> sublist terminator (m @ butlast terminator)"
    and "length (encode_bits m) \<le> length (frames a)"
    and "m \<noteq> []"
  shows "\<exists>a' s1 s2.
           ui_run ui_init [Upload_enc (Some a), Type_message m, Click_encode] = Some s1 \<and>
           shown s1 = [Success ''Encoding successful'', Download a'] \<and>
           ui_run s1 [Upload_dec_lsb (Some a'), Click_decode] = Some s2 \<and>
           shown s2 = [Success ''Decoding complete'', Code m] \<and> ui_reach s2"
proof -
  obtain a' where enc: "encode_lsb a m = Some a'"
    using assms(3) encode_lsb_None_iff [of a m] by fastforce
  have "map_option decode_lsb (encode_lsb a m) = Some m"
    using assms(1,2,3) by (intro decode_encode_lsb_prefix [where rest = "[]"]) (simp_all add: encode_bits_def)
  with enc have dec: "decode_lsb a' = m" by simp
  let ?s1 = "ui_init\<lparr>enc_audio := Some a, enc_message := m,
                      shown := [Success ''Encoding successful'', Download a']\<rparr>"
  let ?s2 = "?s1\<lparr>dec_lsb_file := Some a', shown := [Success ''Decoding complete'', Code m]\<rparr>"
  have r1: "ui_run ui_init [Upload_enc (Some a), Type_message m, Click_encode] = Some ?s1"
    using assms(4) enc by (simp add: ui_init_def encode_button_def encode_tab_def)
  have r2: "ui_run ?s1 [Upload_dec_lsb (Some a'), Click_decode] = Some ?s2"
    using dec by (simp add: ui_init_def decode_button_def decode_tab_def)
  have "ui_reach ?s2"
    using ui_reach_run [OF ui_reach_run [OF ui_reach.init r1] r2] .
  with r1 r2 show ?thesis by auto
qed

theorem ui_lsb_session_witness:
  "list_all (\<lambda>c. 0 < c \<and> c < 256) (of_string ''HI'') \<and>
   \<not> sublist terminator (of_string ''HI'' @ butlast terminator) \<and>
   length (encode_bits (of_string ''HI'')) \<le> length (frames (silent_mono 16000)) \<and>
   (\<exists>a' s1 s2.
      ui_run ui_init [Upload_enc (Some (silent_mono 16000)), Type_message (of_string ''HI''), Click_encode]
        = Some s1 \<and>
      shown s1 = [Success ''Encoding successful'', Download a'] \<and>
      ui_run s1 [Upload_dec_lsb (Some a'), Click_decode] = Some s2 \<and>
      shown s2 = [Success ''Decoding complete'', Code (of_string ''HI'')] \<and> ui_reach s2)"
proof -
  have h1: "list_all (\<lambda>c. 0 < c \<and> c < 256) (of_string ''HI'')" by code_simp
  have h2: "\<not> sublist terminator (of_string ''HI'' @ butlast terminator)" by code_simp
  have h3: "length (encode_bits (of_string ''HI'')) \<le> length (frames (silent_mono 16000))"
    by code_simp
  have h4: "of_string ''HI'' \<noteq> []" by code_simp
  from ui_lsb_session [OF h1 h2 h3 h4] h1 h2 h3 show ?thesis by blast
qed

text \<open>C31: the decode tab lets a user choose the same delay for both bits (here 400 for
  bit 0, on top of the default 400 for bit 1); the page then displays the not-found
  text for any pair of files.\<close>

theorem ui_echo_equal_delays:
  "\<exists>s. ui_run ui_init [Select_dec Tech_Echo, Upload_dec_orig (Some orig),
          Upload_dec_stego (Some st), Slide_dec_d0 400, Click_decode] = Some s \<and>
       dec_d0 s = dec_d1 s \<and> ui_reach s \<and>
       shown s = [Success ''Decoding complete'', Code no_hidden_message]"
proof -
  let ?r = "echo_scan chunk_size (max 400 400) 400 400 (map real_of_int (frames orig))
              (map real_of_int (frames st)) (min (length (frames orig)) (length (frames st)))
              [0..<nat ((int (min (length (frames orig)) (length (frames st))) - int (max 400 400))
                        div int chunk_size)]"
  have "list_all Not (fst ?r)" by (rule echo_scan_equal_delays)
  then have "decode_chars echo_stop [] (fst ?r) = None" by (rule decode_chars_echo_all_zero)
  then have d: "fst (decode_echo_simple orig st 400 400) = no_hidden_message"
    by (simp add: decode_echo_scan Let_def)
  let ?s = "(reset_dec_views (ui_init\<lparr>dec_tech := Tech_Echo\<rparr>))\<lparr>dec_orig_file := Some orig,
              dec_stego_file := Some st, dec_d0 := 400,
              shown := [Success ''Decoding complete'', Code no_hidden_message]\<rparr>"
  have r: "ui_run ui_init [Select_dec Tech_Echo, Upload_dec_orig (Some orig),
          Upload_dec_stego (Some st), Slide_dec_d0 400, Click_decode] = Some ?s"
    using d by (simp add: ui_init_def reset_dec_views_def delay_ok_def decode_button_def decode_tab_def)
  moreover have "ui_reach ?s" using ui_reach_run [OF ui_reach.init r] .
  ultimately show ?thesis by (simp add: ui_init_def reset_dec_views_def)
qed

text \<open>C32: with LSB selected, a click on Encode displays the too-large error exactly when
  the file has fewer samples than the framed message has bits.\<close>

theorem ui_encode_too_large:
  assumes "ui_step s Click_encode = Some s'" and "enc_tech s = Tech_LSB" and "enc_audio s = Some a"
  shows "shown s' = [Error ''Message is too large for this audio file''] \<longleftrightarrow>
           length (frames a) < length (encode_bits (enc_message s))"
  using assms encode_lsb_None_iff [of a "enc_message s"]
  by (auto simp: encode_button_def encode_tab_def split: if_splits option.splits)

theorem ui_encode_too_large_witness:
  "ui_step (ui_init\<lparr>enc_audio := Some (silent_mono 10), enc_message := of_string ''HI''\<rparr>) Click_encode
     = Some (ui_init\<lparr>enc_audio := Some (silent_mono 10), enc_message := of_string ''HI'',
               shown := [Error ''Message is too large for this audio file'']\<rparr>) \<and>
   length (frames (silent_mono 10)) < length (encode_bits (of_string ''HI''))"
proof -
  let ?s = "ui_init\<lparr>enc_audio := Some (silent_mono 10), enc_message := of_string ''HI''\<rparr>"
  have l: "length (frames (silent_mono 10)) < length (encode_bits (of_string ''HI''))" by code_simp
  then have "encode_lsb (silent_mono 10) (of_string ''HI'') = None" by (simp add: encode_lsb_None_iff)
  moreover have "of_string ''HI'' \<noteq> []" by code_simp
  ultimately have st: "ui_step ?s Click_encode = Some (?s\<lparr>shown := [Error ''Message is too large for this audio file'']\<rparr>)"
    by (simp add: ui_init_def encode_button_def encode_tab_def)
  from ui_encode_too_large [OF st] l st show ?thesis by (simp add: ui_init_def)
qed

end
