(* ===== verification/WavBytes.thy ===== *)
theory WavBytes
  imports SampleBuffer
begin

text \<open>
  The byte level of the WAV helpers of \<open>src/app.py\<close> (lines 8--28).  \<open>wave\<close> parses
  the container into its parameters and the raw frame bytes (\<open>wav_stream\<close>); the code
  reads the bytes with \<open>np.frombuffer(frames, dtype=np.int16)\<close>, little-endian pairs
  read as signed 16-bit samples, which raises \<open>ValueError\<close> for an odd number of bytes
  (\<open>frombuffer_int16\<close>), and writes them back with \<open>np.int16(samples).tobytes()\<close>
  (\<open>tobytes\<close>).  The lemmas show that the two conversions are inverse on the
  streams the reader accepts: the bytes written are read back as the written samples,
  and samples read and written back unchanged reproduce the stream.
\<close>

unbundle bit_operations_syntax

record wav_stream =
  sparams :: wav_params
  sdata :: "8 word list"

definition int16_le_bytes :: "int16_word \<Rightarrow> 8 word list" where
  "int16_le_bytes w = [ucast w, ucast (drop_bit 8 w)]"

definition tobytes :: "int16_word list \<Rightarrow> 8 word list" where
  "tobytes ws = concat (map int16_le_bytes ws)"

fun le_int16s :: "8 word list \<Rightarrow> int16_word list" where
  "le_int16s (lo # hi # rest) = word_of_int (uint lo + 256 * uint hi) # le_int16s rest"
| "le_int16s _ = []"

definition frombuffer_int16 :: "8 word list \<Rightarrow> int list option" where
  "frombuffer_int16 bs = (if even (length bs) then Some (map sint (le_int16s bs)) else None)"

definition read_wav_stream :: "wav_stream \<Rightarrow> (real list \<times> wav_params) option" where
  "read_wav_stream s =
     (case frombuffer_int16 (sdata s) of
        None \<Rightarrow> None
      | Some samples \<Rightarrow> Some (map real_of_int samples, sparams s))"

definition write_wav_stream :: "real list \<Rightarrow> wav_params \<Rightarrow> wav_stream" where
  "write_wav_stream samples p =
     \<lparr>sparams = p, sdata = tobytes (map (\<lambda>x. word_of_int (to_int16 (clip16 x))) samples)\<rparr>"

lemma le_bytes_uint:
  "uint (ucast w :: 8 word) + 256 * uint (ucast (drop_bit 8 w) :: 8 word) = uint (w :: int16_word)"
proof -
  have "uint (ucast w :: 8 word) = uint w mod 256"
    by (simp add: unsigned_ucast_eq take_bit_eq_mod)
  moreover have "uint (ucast (drop_bit 8 w) :: 8 word) = uint w div 256"
  proof -
    have "0 \<le> uint w div 256" "uint w div 256 < 256"
      using uint_lt2p [of w] by (simp_all add: pos_imp_zdiv_nonneg_iff)
    then show ?thesis
      by (simp add: unsigned_ucast_eq unsigned_drop_bit_eq take_bit_eq_mod drop_bit_eq_div
          uint_div_distrib)
  qed
  ultimately show ?thesis by simp
qed

lemma le_int16s_tobytes [simp]: "le_int16s (tobytes ws) = ws"
  by (induction ws) (simp_all add: tobytes_def int16_le_bytes_def le_bytes_uint)

lemma length_tobytes [simp]: "length (tobytes ws) = 2 * length ws"
  by (induction ws) (simp_all add: tobytes_def int16_le_bytes_def)

lemma int16_le_bytes_of_pair:
  "int16_le_bytes (word_of_int (uint lo + 256 * uint hi)) = [lo, hi]"
proof -
  define v where "v = uint lo + 256 * uint hi"
  have lo: "0 \<le> uint lo" "uint lo < 256" and hi: "0 \<le> uint hi" "uint hi < 256"
    using uint_lt2p [of lo] uint_lt2p [of hi] by simp_all
  then have v: "uint (word_of_int v :: int16_word) = v"
    unfolding v_def by (simp only: uint_word_of_int_eq) (rule take_bit_int_eq_self; simp)
  have "uint (ucast (word_of_int v :: int16_word) :: 8 word) = uint lo"
    using lo hi by (simp only: unsigned_ucast_eq v) (simp add: v_def take_bit_eq_mod)
  moreover have "uint (ucast (drop_bit 8 (word_of_int v :: int16_word)) :: 8 word) = uint hi"
    using lo hi by (simp only: unsigned_ucast_eq unsigned_drop_bit_eq v)
      (simp add: v_def take_bit_eq_mod drop_bit_eq_div)
  ultimately have "int16_le_bytes (word_of_int v) = [lo, hi]"
    by (simp add: int16_le_bytes_def word_uint_eq_iff)
  then show ?thesis by (simp only: v_def)
qed

lemma int16_le_bytes_pair [simp]: "int16_le_bytes (ucast lo + 256 * ucast hi) = [lo, hi]"
  using int16_le_bytes_of_pair [of lo hi] by simp

lemma tobytes_le_int16s: "even (length bs) \<Longrightarrow> tobytes (le_int16s bs) = bs"
  by (induction bs rule: le_int16s.induct) (simp_all add: tobytes_def)


lemma frombuffer_tobytes: "frombuffer_int16 (tobytes ws) = Some (map sint ws)"
  by (simp add: frombuffer_int16_def)

text \<open>C36: writing back what \<open>read_wav_bytes\<close> read reproduces the file: for every
  stream the reader accepts, \<open>write_wav_bytes\<close> applied to the samples and parameters it
  returns gives the same header and the same frame bytes.  This is what makes the
  samples the encoders do not touch arrive unchanged in the stego file.\<close>

theorem wav_stream_rewrite_identity:
  assumes "read_wav_stream s = Some (xs, p)"
  shows "write_wav_stream xs p = s"
proof -
  have e: "even (length (sdata s))"
    using assms by (simp add: read_wav_stream_def frombuffer_int16_def split: if_splits)
  have xs: "xs = map (\<lambda>w. real_of_int (sint w)) (le_int16s (sdata s))" and p: "p = sparams s"
    using assms e by (simp_all add: read_wav_stream_def frombuffer_int16_def comp_def)
  have pt: "(word_of_int (to_int16 (clip16 (real_of_int (sint w)))) :: int16_word) = w" for w
    by (simp only: clip16_of_int [OF in_int16_sint] to_int16_of_int word_of_int_sint_16)
  have "map (\<lambda>x. word_of_int (to_int16 (clip16 x)) :: int16_word) xs = le_int16s (sdata s)"
    unfolding xs by (simp only: map_map comp_def pt map_ident)
  then show ?thesis
    using e by (simp add: write_wav_stream_def p tobytes_le_int16s)
qed

theorem wav_stream_rewrite_identity_witness:
  "read_wav_stream \<lparr>sparams = params (silent_mono 2), sdata = [1, 2, 255, 128]\<rparr> =
     Some ([513, -32513], params (silent_mono 2)) \<and>
   write_wav_stream [513, -32513] (params (silent_mono 2)) =
     \<lparr>sparams = params (silent_mono 2), sdata = [1, 2, 255, 128]\<rparr>"
proof -
  have r: "read_wav_stream \<lparr>sparams = params (silent_mono 2), sdata = [1, 2, 255, 128]\<rparr> =
             Some ([513, -32513], params (silent_mono 2))"
    by (simp add: read_wav_stream_def frombuffer_int16_def)
  from wav_stream_rewrite_identity [OF r] r show ?thesis by simp
qed

text \<open>C37: reading back what \<open>write_wav_bytes\<close> wrote gives the clipped samples
  truncated towards zero, with the parameters unchanged.\<close>

theorem wav_stream_roundtrip:
  "read_wav_stream (write_wav_stream xs p) = Some (map (\<lambda>x. real_of_int (to_int16 (clip16 x))) xs, p)"
proof -
  have "sint (word_of_int (to_int16 (clip16 x)) :: int16_word) = to_int16 (clip16 x)" for x
    by (simp add: sint_word_of_int_16)
  then show ?thesis by (simp add: read_wav_stream_def write_wav_stream_def frombuffer_tobytes comp_def)
qed

text \<open>C38: \<open>read_wav_bytes\<close> fails (\<open>np.frombuffer\<close> raises \<open>ValueError\<close>) exactly when
  the frame data has an odd number of bytes.\<close>

theorem read_wav_stream_odd:
  "read_wav_stream s = None \<longleftrightarrow> odd (length (sdata s))"
  by (simp add: read_wav_stream_def frombuffer_int16_def)

theorem read_wav_stream_odd_witness:
  "read_wav_stream \<lparr>sparams = params (silent_mono 1), sdata = [1, 2, 3]\<rparr> = None"
  using read_wav_stream_odd [of "\<lparr>sparams = params (silent_mono 1), sdata = [1, 2, 3]\<rparr>"] by simp

lemma length_le_int16s [simp]: "length (le_int16s bs) = length bs div 2"
  by (induction bs rule: le_int16s.induct) simp_all

text \<open>C39: \<open>read_wav_bytes\<close> never consults the sample width: every stream with an
  even number of frame bytes is read, whatever its header says, as one 16-bit sample
  per two bytes, the same samples for every sample width, with the header returned
  unchanged; so an 8-bit file of four frames is read as two 16-bit samples (and then
  written back with its 8-bit header).\<close>

theorem read_wav_stream_ignores_sampwidth:
  assumes "even (length (sdata s))"
  shows "\<exists>xs. read_wav_stream s = Some (xs, sparams s) \<and> length xs = length (sdata s) div 2 \<and>
           (\<forall>w. read_wav_stream (s\<lparr>sparams := (sparams s)\<lparr>sampwidth := w\<rparr>\<rparr>) =
                  Some (xs, (sparams s)\<lparr>sampwidth := w\<rparr>))"
  using assms by (simp add: read_wav_stream_def frombuffer_int16_def)

theorem read_wav_stream_ignores_sampwidth_witness:
  "even (length [128, 128, 200, 56 :: 8 word]) \<and>
   read_wav_stream \<lparr>sparams = (params (silent_mono 4))\<lparr>sampwidth := 1\<rparr>, sdata = [128, 128, 200, 56]\<rparr> =
     Some ([-32640, 14536], (params (silent_mono 4))\<lparr>sampwidth := 1\<rparr>) \<and>
   (\<exists>xs. read_wav_stream \<lparr>sparams = (params (silent_mono 4))\<lparr>sampwidth := 1\<rparr>, sdata = [128, 128, 200, 56]\<rparr>
           = Some (xs, (params (silent_mono 4))\<lparr>sampwidth := 1\<rparr>) \<and> length xs = 2 \<and>
         (\<forall>w. read_wav_stream \<lparr>sparams = (params (silent_mono 4))\<lparr>sampwidth := w\<rparr>, sdata = [128, 128, 200, 56]\<rparr> =
                Some (xs, (params (silent_mono 4))\<lparr>sampwidth := w\<rparr>)))"
proof -
  let ?s = "\<lparr>sparams = (params (silent_mono 4))\<lparr>sampwidth := 1\<rparr>, sdata = [128, 128, 200, 56 :: 8 word]\<rparr>"
  have e: "even (length (sdata ?s))" by simp
  have r: "read_wav_stream ?s = Some ([-32640, 14536], (params (silent_mono 4))\<lparr>sampwidth := 1\<rparr>)"
    by (simp add: read_wav_stream_def frombuffer_int16_def)
  from read_wav_stream_ignores_sampwidth [OF e] r show ?thesis by simp
qed

end
