(* ===== verification/Spec2Isabelle.thy ===== *)
theory Spec2Isabelle
  imports LSB Echo EchoRoundtrip Evaluation UI WavBytes
begin

text \<open>
  \<^bold>\<open>A verification model of the Audio-Encoder-Decoder steganography tool.\<close>

  \<^bold>\<open>The program.\<close> \<open>src/app.py\<close> hides a text message in the 16-bit samples of a
  PCM WAV file, by one of two schemes, behind a Streamlit page; three scripts measure
  how audible the hiding is.  The parts are:
  \<^item> the framing of the message (\<open>message += "###"\<close>, eight bits per character with
    \<open>format(ord(c), "08b")\<close>, and the loop that reads groups of eight bits back until
    the text ends with \<open>"###"\<close>), duplicated in both schemes;
  \<^item> the WAV helpers \<open>read_wav_bytes\<close> and \<open>write_wav_bytes\<close> (lines 8--28), which
    turn bytes into a float array of samples and back, clipping to 16 bits;
  \<^item> the LSB scheme, \<open>encode_lsb\<close> and \<open>decode_lsb\<close> (lines 31--73), one message bit
    in bit 0 of each sample;
  \<^item> the echo scheme, \<open>encode_echo_simple\<close> and \<open>decode_echo_simple\<close>
    (lines 76--172), one bit per 8192-sample chunk as an attenuated echo at one of two
    delays, decoded by correlating the difference of stego and original with the
    original;
  \<^item> the Streamlit page (lines 175--312): an encode tab and a decode tab that call the
    two schemes on uploaded files with the technique and the slider values chosen;
  \<^item> the evaluation scripts \<open>src/snr.py\<close>, \<open>src/stoi.py\<close> and \<open>src/pesq_eval.py\<close>,
    which read the cover and the two stego files, align them and compute (or hand to
    \<open>pystoi\<close> and \<open>pesq\<close>) a quality score.
  The page calls the schemes, each scheme calls the framing and the WAV helpers, and the
  scripts read what the page wrote; nothing is shared between calls.

  \<^bold>\<open>The library.\<close>
  \<^item> \<open>Prelude\<close>: the types (\<open>pystr\<close>, a Python string as a list of code points;
    \<open>bitstr\<close>, a bit string as a list of booleans; \<open>int16_word\<close>), Python slicing
    \<open>slice\<close>, numpy's slice addition \<open>add_slice\<close>, and their list lemmas.
  \<^item> \<open>BitCodec\<close>: \<open>terminator\<close>, \<open>bin_digits\<close>/\<open>format_08b\<close> (\<open>format\<close>),
    \<open>encode_bits\<close>, \<open>bin_val\<close> (\<open>int(s, 2)\<close>), and the decoding loop
    \<open>decode_chars\<close>, parametrised by the stop test of each scheme (\<open>lsb_stop\<close>,
    \<open>echo_stop\<close>).  The loop is a \<^theory_text>\<open>function\<close> whose termination is proved by the
    length of the unread bits; \<open>bytes8\<close>/\<open>decode_ref\<close> are its declarative reference
    (the first byte that is rejected or completes \<open>"###"\<close>, found with \<open>find\<close>).
  \<^item> \<open>SampleBuffer\<close>: a WAV stream as the record \<open>wav_audio\<close> of its parameters
    (\<open>wav_params\<close>, the fields of \<open>getparams()\<close>) and its frames decoded as 16-bit
    integers; \<open>read_wav_bytes\<close>, \<open>clip16\<close>, \<open>to_int16\<close>, \<open>write_wav_bytes\<close>.
  \<^item> \<open>WavBytes\<close>: the byte level of the same helpers: the frame bytes \<open>wave\<close> hands over
    (\<open>wav_stream\<close>), \<open>np.frombuffer(..., np.int16)\<close> (\<open>frombuffer_int16\<close>, little-endian
    pairs, \<open>ValueError\<close> on an odd length) and \<open>tobytes\<close>, \<open>read_wav_stream\<close>,
    \<open>write_wav_stream\<close>; their round trips justify working on decoded samples
    everywhere else.
  \<^item> \<open>LSB\<close>: \<open>lsb_set\<close> (\<open>(flat[i] & 0xFFFE) | int(b)\<close> on a \<open>16 word\<close>),
    \<open>lsb_loop\<close> (the \<open>for\<close> loop over the bits, a list update per step),
    \<open>encode_lsb\<close>, \<open>lsb_bits\<close>, \<open>decode_lsb\<close>.
  \<^item> \<open>Echo\<close>: \<open>echo_loop\<close> (the embedding loop with its \<open>break\<close> and bounds guard),
    \<open>encode_echo_simple\<close>, \<open>corr\<close>, \<open>echo_scan\<close> (the decoding loop, returning bits and
    diagnostics), \<open>decode_echo_simple\<close>, and the abstract effect \<open>echo_tap\<close>/\<open>echo_sum\<close>
    of the encoder.  The chunk size is a parameter of the loops, 8192 at the entry points.
  \<^item> \<open>EchoRoundtrip\<close>: the echo scheme on click tracks (\<open>impulse_train\<close>), where the
    round trip the spec promises holds deterministically.
  \<^item> \<open>Evaluation\<close>: \<open>calculate_snr\<close> with \<open>signal_power\<close>/\<open>noise_power\<close> and the
    script body \<open>snr_script\<close>; \<open>stoi_prepare\<close> (rate check, channel mean, truncation);
    \<open>convert_to_mono\<close>, \<open>resample_audio\<close>, \<open>pesq_resample\<close>, \<open>pesq_prepare\<close>.  Errors
    the scripts raise are values of \<open>script_error + _\<close>.
  \<^item> \<open>UI\<close>: the page as the record \<open>ui_state\<close> of widget values and displayed outputs,
    the user events \<open>ui_event\<close>, the run of the script after an event \<open>ui_step\<close>
    (\<open>None\<close> for an event the page does not offer), the outputs of the two buttons
    \<open>encode_tab\<close> and \<open>decode_tab\<close>, sessions \<open>ui_run\<close> and reachable states \<open>ui_reach\<close>.
  \<^item> This theory: the properties that span components: the LSB scheme as the SNR script
    measures it, and an echo session through the page on a click track.
  Every definition computes; the witnesses evaluate them on small concrete buffers with
  \<open>simp\<close> and \<open>code_simp\<close>.

  \<^bold>\<open>What is proved.\<close>
  \<^item> LSB: the round trip (C1), the capacity boundary (C2), that only bit 0 of the samples
    used changes (C3, C4), not-found on an unembedded buffer (C9), and that re-encoding
    the same message leaves a stego buffer unchanged, bits are written, not toggled (C10).
  \<^item> Codec: round trip and frame length (C5, C6), and that the decoding loop equals its
    declarative reference (C33); written samples are always 16-bit (C11).
  \<^item> Echo: the capacity boundary (C13), the stego buffer as the original plus the sum of
    the echoes of the bits (C14), not-found on an unmodified buffer (C15), one decided bit
    per full chunk (C16), saturation rather than wrap-around of samples the echoes push out
    of range (C17), diagnostics that agree with the bits (C34),
    and the round trip on click tracks: an impulse at the start of every chunk, echo
    amplitude a non-zero 16-bit integer, two different delays below the chunk size (C35).
  \<^item> WAV helpers: writing back the samples read reproduces the stream (C36), writing then
    reading gives the clipped samples (C37), and reading fails exactly on an odd byte
    count (C38).
  \<^item> Evaluation: STOI's rate check and alignment (C19, C20), PESQ's rate, mode and
    alignment (C21), its only failure, a zero rate (C22), and that \<open>astype(np.int16)\<close> of
    the stereo mean never wraps (C24); LSB noise is at most one unit per message bit and
    the SNR is bounded below accordingly (C25, C26).
  \<^item> Page: in every reachable state the displayed output is empty or what a tab computes
    from the current widgets, so no stale result or download stays on the page (C29, by
    rule induction over \<open>ui_reach\<close>), that a user can always
    get an LSB message through the page (C30), the too-large error (C32), and that with
    the default sliders an echo message on a click track gets through the page (C40).
  Theorems recording where the code differs from what the spec or a sibling promises:
  decoding stops at the first \<open>"###"\<close> inside the message (C7), a NUL character makes the
  message unreadable (C8), a character above 255 takes more than eight bits and its
  message never decodes (C12), the echo decoder rejects bytes
  above 127 (C18), PESQ never checks the stego files' rates (C23), and with equal delays,
  which both tabs allow, echo embeds nothing and decodes nothing (C27, C28, C31), and the
  sample width in the header is never checked: every even-length stream is read as 16-bit
  samples whatever its width, so 8-bit files are misread (C39).

  \<^bold>\<open>Modelling choices.\<close> numpy's float32 and float64 arithmetic is exact real
  arithmetic; for the LSB scheme every value is a 16-bit integer, so this is exact there.
  A WAV stream is what \<open>wave\<close> or \<open>wavfile.read\<close> decodes the container to: its
  parameters and its frame bytes (\<open>WavBytes\<close>), or, once those are read as int16, its
  samples (\<open>wav_audio\<close>, used by the schemes).  Python strings are lists of code points.  No loop
  needs fuel: every loop of the code runs over a finite list (bits, chunk indices), and
  the decoding loop terminates by the length of the unread bits.

  \<^bold>\<open>Not modelled.\<close> The RIFF header that \<open>wave\<close> and \<open>scipy.io.wavfile\<close> parse and
  write (the frame bytes inside it are modelled), and so the exceptions of malformed
  files (the \<open>except\<close> branches of the page are unreachable in the model); the echo
  round trip on general signals, which the spec itself only claims as probable; float32 rounding in the echo scheme; the quality measures themselves
  (\<open>pystoi.stoi\<close>, \<open>pesq.pesq\<close>, \<open>scipy.signal.resample\<close>, of which only the result
  length is used), which are external libraries; printing and the page's layout,
  spinners and markdown.
\<close>


text \<open>A constant mono buffer of \<open>n\<close> samples of value \<open>v\<close>, the cover of the
  concrete SNR scenario.\<close>

definition dc_mono :: "nat \<Rightarrow> int \<Rightarrow> wav_audio" where
  "dc_mono n v = (silent_mono n)\<lparr>frames := replicate n v\<rparr>"

subsection \<open>The LSB scheme as the SNR script measures it\<close>

lemma lsb_sample_change:
  assumes "encode_lsb a m = Some a'" and "wf_audio a" and "i < length (frames a)"
  shows "\<bar>real_of_int (frames a ! i) - real_of_int (frames a' ! i)\<bar> \<le> 1"
    and "length (encode_bits m) \<le> i \<Longrightarrow> frames a' ! i = frames a ! i"
proof -
  have x: "sint (word_of_int (frames a ! i) :: int16_word) = frames a ! i"
    using assms(2,3) by (simp add: wf_audio_def list_all_iff sint_word_of_int_16)
  have "\<bar>frames a' ! i - frames a ! i\<bar> \<le> 1"
    using lsb_set_change [of "word_of_int (frames a ! i)"] x
    by (simp add: lsb_encode_nth [OF assms(1,3)])
  then show "\<bar>real_of_int (frames a ! i) - real_of_int (frames a' ! i)\<bar> \<le> 1"
    by linarith
  show "length (encode_bits m) \<le> i \<Longrightarrow> frames a' ! i = frames a ! i"
    using x by (simp add: lsb_encode_nth [OF assms(1,3)])
qed

lemma log_ratio_mono:
  assumes "0 < s" and "0 < n" and "n \<le> k"
  shows "10 * log 10 (s / k) \<le> 10 * log 10 (s / n)"
proof -
  have "s / k \<le> s / n" using assms by (simp add: divide_left_mono)
  moreover have "0 < s / k" using assms by simp
  ultimately show ?thesis by simp
qed

lemma encode_lsb_dc_24:
  "encode_lsb (dc_mono 24 2) [] =
     Some ((dc_mono 24 2)\<lparr>frames := concat (replicate 3 [2, 2, 3, 2, 2, 2, 3, 3])\<rparr>)"
  by code_simp

text \<open>C25: the noise an LSB encoding adds, as \<open>src/snr.py\<close> measures it between the
  cover and the stego file, is at most the number of message bits: each used sample moves
  by at most one and the others do not move.\<close>

theorem lsb_noise_bound:
  assumes "encode_lsb a m = Some a'" and "wf_audio a"
  shows "noise_power (map real_of_int (frames a)) (map real_of_int (frames a'))
           \<le> real (length (encode_bits m))"
proof (rule noise_power_le_count)
  have "length (frames a') = length (frames a)"
    using lsb_encode_result(2) [OF assms(1)] by simp
  then show "length (map real_of_int (frames a)) = length (map real_of_int (frames a'))" by simp
  fix i assume "i < length (map real_of_int (frames a))"
  then have i: "i < length (frames a)" by simp
  show "\<bar>map real_of_int (frames a) ! i - map real_of_int (frames a') ! i\<bar> \<le> 1"
    using lsb_sample_change(1) [OF assms i] i \<open>length (frames a') = length (frames a)\<close> by simp
  show "length (encode_bits m) \<le> i \<Longrightarrow>
          map real_of_int (frames a) ! i = map real_of_int (frames a') ! i"
    using lsb_sample_change(2) [OF assms i] i \<open>length (frames a') = length (frames a)\<close> by simp
qed


theorem lsb_noise_bound_witness:
  "wf_audio (dc_mono 24 2) \<and>
   noise_power (map real_of_int (frames (dc_mono 24 2)))
     (map real_of_int (concat (replicate 3 [2, 2, 3, 2, 2, 2, 3, 3]))) \<le> 24"
proof -
  have wf: "wf_audio (dc_mono 24 2)"
    by (simp add: wf_audio_def dc_mono_def in_int16_def list_all_iff)
  have "length (encode_bits []) = 24" by code_simp
  with lsb_noise_bound [OF encode_lsb_dc_24 wf] wf show ?thesis by simp
qed

text \<open>C26: hence the LSB SNR that \<open>src/snr.py\<close> computes for a cover, its LSB stego file
  and an echo stego file at least as long, when it is a finite number of decibels, is at
  least \<open>10 log10(P / B)\<close> for the cover's signal power \<open>P\<close> and the \<open>B\<close> bits of the
  framed message.\<close>

theorem lsb_snr_bound:
  assumes "encode_lsb a m = Some a'" and "wf_audio a" and "length (frames a) \<le> length echo"
    and "fst (snr_script (frames a) (frames a') echo) = Db v"
  shows "10 * log 10 (signal_power (map real_of_int (frames a)) / real (length (encode_bits m))) \<le> v"
proof -
  let ?s = "signal_power (map real_of_int (frames a))"
  let ?n = "noise_power (map real_of_int (frames a)) (map real_of_int (frames a'))"
  have "length (frames a') = length (frames a)"
    using lsb_encode_result(2) [OF assms(1)] by simp
  then have "fst (snr_script (frames a) (frames a') echo) =
      calculate_snr (map real_of_int (frames a)) (map real_of_int (frames a'))"
    using assms(3) by (simp add: snr_script_def Let_def min_def)
  with assms(4) have n0: "?n \<noteq> 0" and s0: "?s / ?n \<noteq> 0" and v: "v = 10 * log 10 (?s / ?n)"
    by (auto simp: calculate_snr_def Let_def split: if_splits)
  have "0 < ?s" using s0 signal_power_nonneg [of "map real_of_int (frames a)"] by force
  moreover have "0 < ?n"
    using n0 noise_power_nonneg [of "map real_of_int (frames a)" "map real_of_int (frames a')"]
    by linarith
  moreover have "?n \<le> real (length (encode_bits m))" using assms(1,2) by (rule lsb_noise_bound)
  ultimately show ?thesis unfolding v by (rule log_ratio_mono)
qed

theorem lsb_snr_bound_witness:
  "wf_audio (dc_mono 24 2) \<and>
   fst (snr_script (frames (dc_mono 24 2)) (concat (replicate 3 [2, 2, 3, 2, 2, 2, 3, 3]))
     (frames (dc_mono 24 2))) = Db (10 * log 10 (96 / 9)) \<and>
   10 * log 10 (96 / 24) \<le> 10 * log 10 ((96::real) / 9)"
proof -
  have wf: "wf_audio (dc_mono 24 2)"
    by (simp add: wf_audio_def dc_mono_def in_int16_def list_all_iff)
  have snr: "fst (snr_script (frames (dc_mono 24 2)) (concat (replicate 3 [2, 2, 3, 2, 2, 2, 3, 3]))
     (frames (dc_mono 24 2))) = Db (10 * log 10 (96 / 9))"
    by (simp add: snr_script_def calculate_snr_def signal_power_def noise_power_def dc_mono_def
        numeral_eq_Suc)
  have "length (encode_bits []) = 24" by code_simp
  moreover have "signal_power (map real_of_int (frames (dc_mono 24 2))) = 96"
    by (simp add: signal_power_def dc_mono_def numeral_eq_Suc)
  moreover have "length (frames (dc_mono 24 2)) \<le> length (frames (dc_mono 24 2))" by simp
  ultimately have "10 * log 10 (96 / 24) \<le> 10 * log 10 ((96::real) / 9)"
    using lsb_snr_bound [OF encode_lsb_dc_24 wf] snr by simp
  with wf snr show ?thesis by simp
qed

subsection \<open>An echo session through the page\<close>

text \<open>C40: with the page's default delays (200 and 400 samples) and strength (0.5), a user
  gets a message through the echo scheme on a click track of even amplitude: uploading
  the track, typing the message, choosing Echo Hiding and clicking Encode offers the
  stego file with the keep-the-original warning, and decoding it against the track in
  the echo view of the decode tab displays the message.\<close>

theorem ui_echo_session:
  assumes fa: "frames a = impulse_train chunk_size A n" and "even A" and "A \<noteq> 0" and "in_int16 A"
    and msg: "list_all (\<lambda>c. 0 < c \<and> c < 128) m" and tm: "\<not> sublist terminator (m @ butlast terminator)"
    and "m \<noteq> []" and cap: "length (encode_bits m) * chunk_size + 400 \<le> n"
  shows "\<exists>a' s1 s2.
     ui_run ui_init [Upload_enc (Some a), Type_message m, Select_enc Tech_Echo, Click_encode] = Some s1 \<and>
     shown s1 = [Success ''Encoding successful'', Download a',
                 Warning ''Keep your original audio file! You'll need it to decode the message.''] \<and>
     ui_run s1 [Select_dec Tech_Echo, Upload_dec_orig (Some a), Upload_dec_stego (Some a'), Click_decode]
       = Some s2 \<and>
     shown s2 = [Success ''Decoding complete'', Code m] \<and> ui_reach s2"
proof -
  obtain a' where enc: "encode_echo_simple a m 200 400 (1 / 2) = Some a'"
    using cap fa encode_echo_None_iff [of a m 200 400 "1 / 2"] by fastforce
  have B: "1 / 2 * real_of_int A = real_of_int (A div 2)" using assms(2) by auto
  have "in_int16 (A div 2)" using assms(4) unfolding in_int16_def by linarith
  moreover have "A div 2 \<noteq> 0" using assms(2,3) by auto
  ultimately have dec: "fst (decode_echo_simple a a' 200 400) = m"
    using decode_encode_echo_impulses [OF enc fa B assms(4)] assms(3) msg tm
    by (simp add: chunk_size_def)
  let ?s1 = "ui_init\<lparr>enc_audio := Some a, enc_message := m, enc_tech := Tech_Echo,
       shown := [Success ''Encoding successful'', Download a',
                 Warning ''Keep your original audio file! You'll need it to decode the message.'']\<rparr>"
  have r1: "ui_run ui_init [Upload_enc (Some a), Type_message m, Select_enc Tech_Echo, Click_encode]
      = Some ?s1" using assms(7) enc by (rule ui_run_echo_encode)
  let ?s2 = "(reset_dec_views (?s1\<lparr>dec_tech := Tech_Echo\<rparr>))\<lparr>dec_orig_file := Some a,
       dec_stego_file := Some a', shown := [Success ''Decoding complete'', Code m]\<rparr>"
  have r2: "ui_run ?s1 [Select_dec Tech_Echo, Upload_dec_orig (Some a), Upload_dec_stego (Some a'),
      Click_decode] = Some ?s2"
  proof -
    have "dec_tech ?s1 = Tech_LSB" by (simp add: ui_init_def)
    from ui_run_echo_decode [OF this, of a a'] show ?thesis unfolding dec .
  qed
  have reach: "ui_reach ?s2" using ui_reach_run [OF ui_reach_run [OF ui_reach.init r1] r2] .
  show ?thesis
  proof (intro exI conjI)
    show "ui_run ui_init [Upload_enc (Some a), Type_message m, Select_enc Tech_Echo, Click_encode]
        = Some ?s1" by (rule r1)
    show "ui_run ?s1 [Select_dec Tech_Echo, Upload_dec_orig (Some a), Upload_dec_stego (Some a'),
        Click_decode] = Some ?s2" by (rule r2)
    show "ui_reach ?s2" by (rule reach)
  qed simp_all
qed

theorem ui_echo_session_witness:
  "frames (click_track 328080 1000) = impulse_train chunk_size 1000 328080 \<and>
   list_all (\<lambda>c. 0 < c \<and> c < 128) (of_string ''HI'') \<and>
   \<not> sublist terminator (of_string ''HI'' @ butlast terminator) \<and>
   length (encode_bits (of_string ''HI'')) * chunk_size + 400 \<le> 328080 \<and>
   (\<exists>a' s1 s2.
     ui_run ui_init [Upload_enc (Some (click_track 328080 1000)), Type_message (of_string ''HI''),
       Select_enc Tech_Echo, Click_encode] = Some s1 \<and>
     shown s1 = [Success ''Encoding successful'', Download a',
                 Warning ''Keep your original audio file! You'll need it to decode the message.''] \<and>
     ui_run s1 [Select_dec Tech_Echo, Upload_dec_orig (Some (click_track 328080 1000)),
       Upload_dec_stego (Some a'), Click_decode] = Some s2 \<and>
     shown s2 = [Success ''Decoding complete'', Code (of_string ''HI'')] \<and> ui_reach s2)"
proof -
  have f: "frames (click_track 328080 1000) = impulse_train chunk_size 1000 328080"
    by (simp add: click_track_def)
  have m: "list_all (\<lambda>c. 0 < c \<and> c < 128) (of_string ''HI'')" by code_simp
  have t: "\<not> sublist terminator (of_string ''HI'' @ butlast terminator)" by code_simp
  have ne: "of_string ''HI'' \<noteq> []" by code_simp
  have l: "length (encode_bits (of_string ''HI'')) = 40" by code_simp
  then have c: "length (encode_bits (of_string ''HI'')) * chunk_size + 400 \<le> (328080::nat)"
    by (simp add: chunk_size_def)
  have "even (1000::int)" "(1000::int) \<noteq> 0" "in_int16 1000" by (simp_all add: in_int16_def)
  from ui_echo_session [OF f this m t ne c] f m t c show ?thesis by blast
qed

end
